theory Spec2Isabelle
  imports Main "HOL-Library.AList" "HOL-Library.Multiset"
begin

section \<open>Errors raised by the modelled functions\<close>

datatype error =
    MissingObjectId
  | SpreadNotIterable
  | CannotMoveDefaultRole
  | RoleNotFound string
  | ChannelNotFound string
  | GuildNotCached
  | MessageTooOld nat
  | InvalidLimit
  | TooManyRoleMentions
  | TooManyUserMentions
  | TransportError

section \<open>JavaScript numbers\<close>

text \<open>
  A JavaScript number is an IEEE double. The integers among the doubles are modelled as
  the integers they are, and an integer that has to become a number (the sum of two
  numbers, the numeric value of a decimal string) is rounded to the nearest double, ties
  to the even significand: \<open>double_exponent n\<close> is the number of low bits a 53-bit
  significand cannot hold, \<open>round_at e\<close> rounds to a multiple of \<open>2 ^ e\<close>. Magnitudes
  stay below \<open>2 ^ 1024\<close>, so nothing overflows.
\<close>

function double_exponent :: "nat \<Rightarrow> nat" where
  "double_exponent n = (if n < 9007199254740992 then 0 else Suc (double_exponent (n div 2)))"
  by pat_completeness auto
termination
  by (relation "measure (\<lambda>n. n)") auto

declare double_exponent.simps [simp del]

definition round_at :: "nat \<Rightarrow> nat \<Rightarrow> nat" where
  "round_at e n =
     (let q = n div 2 ^ e; r = n mod 2 ^ e
      in (if 2 ^ e < 2 * r \<or> (2 * r = 2 ^ e \<and> odd q) then q + 1 else q) * 2 ^ e)"

definition double_of_nat :: "nat \<Rightarrow> nat" where
  "double_of_nat n = round_at (double_exponent n) n"

definition double_of_int :: "int \<Rightarrow> int" where
  "double_of_int x =
     (if x < 0 then - int (double_of_nat (nat (- x))) else int (double_of_nat (nat x)))"

text \<open>\<open>Number.isSafeInteger\<close>: at most \<open>2 ^ 53 - 1\<close> in magnitude.\<close>

definition safe_integer :: "int \<Rightarrow> bool" where
  "safe_integer x \<longleftrightarrow> \<bar>x\<bar> \<le> 9007199254740991"

section \<open>Collection: the identity-keyed bounded store\<close>

text \<open>
  \<open>Collection\<close> extends the JavaScript \<open>Map\<close>: an association list in insertion order
  with unique keys. \<open>Map.set\<close> on a present key overwrites the value where it stands and
  on an absent key appends (\<open>AList.update\<close>); \<open>Map.delete\<close> is \<open>AList.delete\<close>;
  \<open>Map.get\<close> is \<open>map_of\<close>. Entities are objects, so the store holds references into a
  heap (a list indexed by reference); \<open>new\<close> allocates at the end of the heap.

  The value of \<open>obj.id\<close> is a \<open>string option\<close>: \<open>None\<close> stands for \<open>null\<close> and
  \<open>undefined\<close>. The object handed to \<open>add\<close> is either a plain data object (\<open>Raw\<close>) or
  a reference to an object that passes the \<open>instanceof\<close> / constructor-name test
  (\<open>Inst\<close>). The \<open>extra\<close> argument is \<open>undefined\<close>, a non-iterable object, or an iterable.
\<close>

type_synonym jsid = "string option"
type_synonym ref = nat

record 'd raw =
  raw_id :: jsid
  raw_data :: 'd

datatype 'd obj = Raw "'d raw" | Inst ref

datatype 'x extra = ExtraUndefined | ExtraObject 'x | ExtraIterable "'x list"

text \<open>
  The entity class \<open>baseObject\<close> is not part of the store: its constructor, the \<open>id\<close>
  field of its instances and its \<open>update\<close> method are parameters.
\<close>

record ('d, 'x, 'e) base_object =
  construct :: "'d raw \<Rightarrow> 'x list \<Rightarrow> 'e"
  ident :: "'e \<Rightarrow> jsid"
  update_entity :: "'e \<Rightarrow> 'd raw + 'e \<Rightarrow> 'x extra \<Rightarrow> 'e"

record 'e collection =
  limit :: "nat option"
  entries :: "(jsid \<times> ref) list"
  heap :: "'e list"

definition new_collection :: "nat option \<Rightarrow> 'e list \<Rightarrow> 'e collection" where
  "new_collection lim h = \<lparr>limit = lim, entries = [], heap = h\<rparr>"



text \<open>\<open>...extra\<close> in an argument list: a \<open>TypeError\<close> unless \<open>extra\<close> is iterable.\<close>

fun spread :: "'x extra \<Rightarrow> error + 'x list" where
  "spread ExtraUndefined = Inl SpreadNotIterable"
| "spread (ExtraObject x) = Inl SpreadNotIterable"
| "spread (ExtraIterable xs) = Inr xs"

fun obj_id :: "('d, 'x, 'e) base_object \<Rightarrow> 'e collection \<Rightarrow> 'd obj \<Rightarrow> jsid" where
  "obj_id B s (Raw r) = raw_id r"
| "obj_id B s (Inst p) = ident B (heap s ! p)"

fun obj_view :: "'e collection \<Rightarrow> 'd obj \<Rightarrow> 'd raw + 'e" where
  "obj_view s (Raw r) = Inl r"
| "obj_view s (Inst p) = Inr (heap s ! p)"

text \<open>
  \<open>(obj instanceof baseObject || ...) ? obj : new baseObject(obj, ...extra)\<close>: the
  reference to the typed entity, allocating one when \<open>obj\<close> is raw.
\<close>

fun materialize ::
  "('d, 'x, 'e) base_object \<Rightarrow> 'd obj \<Rightarrow> 'x extra \<Rightarrow> 'e collection \<Rightarrow> (error + ref) \<times> 'e collection"
where
  "materialize B (Inst p) ex s = (Inr p, s)"
| "materialize B (Raw r) ex s =
     (case spread ex of
        Inl e \<Rightarrow> (Inl e, s)
      | Inr args \<Rightarrow> (Inr (length (heap s)), s\<lparr>heap := heap s @ [construct B r args]\<rparr>))"

text \<open>
  The eviction loop: \<open>iter = this.keys(); while(size > limit) delete(iter.next().value)\<close>.
  The live key iterator yields the oldest remaining key each time, so every round deletes
  the head of the insertion order.
\<close>

function evict :: "nat \<Rightarrow> ('k \<times> 'v) list \<Rightarrow> ('k \<times> 'v) list" where
  "evict k es = (if k < length es then evict k (tl es) else es)"
  by pat_completeness auto
termination
  by (relation "measure (\<lambda>(k, es). length es)") auto

declare evict.simps [simp del]

definition enforce_limit :: "'e collection \<Rightarrow> 'e collection" where
  "enforce_limit s =
     (case limit s of
        None \<Rightarrow> s
      | Some k \<Rightarrow> if k \<noteq> 0 \<and> k < length (entries s) then s\<lparr>entries := evict k (entries s)\<rparr> else s)"

definition add ::
  "('d, 'x, 'e) base_object \<Rightarrow> 'd obj \<Rightarrow> 'x extra \<Rightarrow> bool \<Rightarrow> 'e collection \<Rightarrow> (error + ref) \<times> 'e collection"
where
  "add B ob ex replace s =
     (if limit s = Some 0 then materialize B ob ex s
      else if obj_id B s ob = None then (Inl MissingObjectId, s)
      else if map_of (entries s) (obj_id B s ob) \<noteq> None \<and> \<not> replace
        then (Inr (the (map_of (entries s) (obj_id B s ob))), s)
      else
        (case materialize B ob ex s of
           (Inl e, s') \<Rightarrow> (Inl e, s')
         | (Inr p, s') \<Rightarrow>
             (Inr p, enforce_limit (s'\<lparr>entries := AList.update (ident B (heap s' ! p)) p (entries s')\<rparr>))))"

definition remove ::
  "('d, 'x, 'e) base_object \<Rightarrow> 'd obj \<Rightarrow> 'e collection \<Rightarrow> ref option \<times> 'e collection"
where
  "remove B ob s =
     (case map_of (entries s) (obj_id B s ob) of
        None \<Rightarrow> (None, s)
      | Some item \<Rightarrow> (Some item, s\<lparr>entries := AList.delete (obj_id B s ob) (entries s)\<rparr>))"

text \<open>\<open>!obj.id && obj.id !== 0\<close> on a string-or-missing identifier.\<close>

definition falsy_id :: "jsid \<Rightarrow> bool" where
  "falsy_id i = (i = None \<or> i = Some [])"

definition update ::
  "('d, 'x, 'e) base_object \<Rightarrow> 'd obj \<Rightarrow> 'x extra \<Rightarrow> bool \<Rightarrow> 'e collection \<Rightarrow> (error + ref) \<times> 'e collection"
where
  "update B ob ex replace s =
     (if falsy_id (obj_id B s ob) then (Inl MissingObjectId, s)
      else
        (case map_of (entries s) (obj_id B s ob) of
           None \<Rightarrow> add B ob ex replace s
         | Some item \<Rightarrow>
             (Inr item, s\<lparr>heap := (heap s)[item := update_entity B (heap s ! item) (obj_view s ob) ex]\<rparr>)))"

subsection \<open>Sequences of store operations and the insertion history\<close>

datatype ('d, 'x) op =
    Add "'d obj" "'x extra" bool
  | Update "'d obj" "'x extra" bool
  | Remove "'d obj"


fun step :: "('d, 'x, 'e) base_object \<Rightarrow> ('d, 'x) op \<Rightarrow> 'e collection \<Rightarrow> 'e collection" where
  "step B (Add ob ex r) s = snd (add B ob ex r s)"
| "step B (Update ob ex r) s = snd (update B ob ex r s)"
| "step B (Remove ob) s = snd (remove B ob s)"

definition run :: "('d, 'x, 'e) base_object \<Rightarrow> ('d, 'x) op list \<Rightarrow> 'e collection \<Rightarrow> 'e collection" where
  "run B ops s = fold (step B) ops s"

text \<open>
  The history the specification speaks of, taken from the operations. An identifier is
  \<^emph>\<open>inserted\<close> when an \<open>add\<close> or \<open>update\<close> creates an entry for it (most recent
  insertion last): the object carries an identifier, no entry stands in the way (for
  \<open>add\<close>: none with the object's identifier unless \<open>replace\<close> is set; for \<open>update\<close>:
  none with the object's identifier), the entity can be materialized, and the store has
  no entry yet under the identifier of the materialized entity (an entry that is there
  keeps its place when its entity is replaced). An identifier is \<^emph>\<open>explicitly removed\<close>
  by a \<open>remove\<close> of an object whose identifier has an entry. Both are decided on the
  store before the operation; what the operation leaves in the store is not consulted,
  and evictions are not recorded.
\<close>

record history =
  inserted :: "jsid list"
  removed :: "jsid list"

definition record_new :: "jsid list \<Rightarrow> history \<Rightarrow> history" where
  "record_new new H =
     \<lparr>inserted = filter (\<lambda>k. k \<notin> set new) (inserted H) @ new,
      removed = filter (\<lambda>k. k \<notin> set new) (removed H)\<rparr>"












text \<open>
  A sample entity class for concrete runs: the constructor keeps the identifier and the
  data of the raw object and the constructor arguments it was given; \<open>update\<close> takes
  over the data of the object it is handed.
\<close>

record sample_entity =
  ent_id :: jsid
  ent_data :: string
  ent_args :: "string list"

definition sample_object :: "(string, string, sample_entity) base_object" where
  "sample_object =
     \<lparr>construct = (\<lambda>r args. \<lparr>ent_id = raw_id r, ent_data = raw_data r, ent_args = args\<rparr>),
      ident = ent_id,
      update_entity = (\<lambda>e v ex. e\<lparr>ent_data := (case v of Inl r \<Rightarrow> raw_data r | Inr e' \<Rightarrow> ent_data e')\<rparr>)\<rparr>"

definition raw_of :: "string \<Rightarrow> string obj" where
  "raw_of i = Raw \<lparr>raw_id = Some i, raw_data = i\<rparr>"

definition raw_without_id :: "string obj" where
  "raw_without_id = Raw \<lparr>raw_id = None, raw_data = ''anonymous''\<rparr>"

section \<open>Requests handed to the transport\<close>

record channel_patch =
  patch_id :: string
  position :: int
  lock_permissions :: "bool option"
  parent_id :: "string option"

record role_patch =
  role_patch_id :: string
  role_patch_position :: int

datatype request =
    GetMessages string nat "nat option" "nat option"
  | DeleteMessage string nat "string option"
  | BulkDelete string "nat list" "string option"
  | PatchGuildChannels string "channel_patch list"
  | PatchGuildRoles string "role_patch list"

datatype event = Request request | Sleep nat

section \<open>The position reorderer\<close>

text \<open>
  The cached channels and roles of a guild are Collections keyed by the entity's id; here
  they are the lists of their values in insertion order, \<open>get\<close> being the search by id.
  A missing guild makes \<open>this.guilds.get(...).channels\<close> throw a \<open>TypeError\<close>
  (\<open>GuildNotCached\<close>). The result is the error of a rejected promise, \<open>Inr None\<close> for a
  promise resolved without a request, or the request whose promise is returned.
  Positions are integer-valued numbers (the integers of the model that are doubles; the
  safe integers are among them). \<open>Math.min\<close>, \<open>Math.max\<close> and the comparisons are
  exact on them, and the sign of \<open>a.position - b.position\<close> is the order of the two
  positions; \<open>Array.prototype.sort\<close> is stable, so sorting with that comparator is the
  stable \<open>sort_key\<close> on the position. \<open>index + min\<close> is the sum rounded to a double.
\<close>

record channel =
  cid :: string
  ctype :: nat
  cposition :: int

record role =
  rid :: string
  rposition :: int

record guild =
  channels :: "channel list"
  roles :: "role list"

record client =
  guilds :: "string \<rightharpoonup> guild"
  channelGuildMap :: "string \<rightharpoonup> string"

record position_options =
  lockPermissions :: "bool option"
  parentID :: "string option"

definition editChannelPosition ::
  "client \<Rightarrow> string \<Rightarrow> int \<Rightarrow> position_options \<Rightarrow> error + request option"
where
  "editChannelPosition cl channelID pos opts =
     (case channelGuildMap cl channelID of
        None \<Rightarrow> Inl GuildNotCached
      | Some guildID \<Rightarrow>
     (case guilds cl guildID of
        None \<Rightarrow> Inl GuildNotCached
      | Some g \<Rightarrow>
     (case find (\<lambda>c. cid c = channelID) (channels g) of
        None \<Rightarrow> Inl (ChannelNotFound channelID)
      | Some chn \<Rightarrow>
          if cposition chn = pos then Inr None
          else
            let mn = min pos (cposition chn);
                mx = max pos (cposition chn);
                chans = sort_key cposition
                  (filter (\<lambda>chan. ctype chan = ctype chn
                               \<and> mn \<le> cposition chan
                               \<and> cposition chan \<le> mx
                               \<and> cid chan \<noteq> channelID) (channels g));
                chans' = (if pos > cposition chn then chans @ [chn] else chn # chans)
            in Inr (Some (PatchGuildChannels guildID
                 (map (\<lambda>(index, c). \<lparr>patch_id = cid c, position = double_of_int (int index + mn),
                                      lock_permissions = lockPermissions opts,
                                      parent_id = parentID opts\<rparr>)
                      (List.enumerate 0 chans')))))))"

definition editRolePosition :: "client \<Rightarrow> string \<Rightarrow> string \<Rightarrow> int \<Rightarrow> error + request option" where
  "editRolePosition cl guildID roleID pos =
     (if guildID = roleID then Inl CannotMoveDefaultRole
      else
     (case guilds cl guildID of
        None \<Rightarrow> Inl GuildNotCached
      | Some g \<Rightarrow>
     (case find (\<lambda>r. rid r = roleID) (roles g) of
        None \<Rightarrow> Inl (RoleNotFound roleID)
      | Some rl \<Rightarrow>
          if rposition rl = pos then Inr None
          else
            let mn = min pos (rposition rl);
                mx = max pos (rposition rl);
                rs = sort_key rposition
                  (filter (\<lambda>r. mn \<le> rposition r \<and> rposition r \<le> mx \<and> rid r \<noteq> roleID) (roles g));
                rs' = (if pos > rposition rl then rs @ [rl] else rl # rs)
            in Inr (Some (PatchGuildRoles guildID
                 (map (\<lambda>(index, r). \<lparr>role_patch_id = rid r,
                                      role_patch_position = double_of_int (int index + mn)\<rparr>)
                      (List.enumerate 0 rs')))))))"

section \<open>The allowed-mentions normalizer\<close>

text \<open>
  A \<open>roles\<close> or \<open>users\<close> field is \<open>true\<close> (\<open>Blanket\<close>), an array (\<open>Explicit\<close>) or
  anything else (\<open>Unset\<close>); \<open>everyone\<close> counts by its truthiness; \<open>repliedUser\<close> is
  \<open>undefined\<close> (\<open>None\<close>) or a value. A falsy argument is \<open>None\<close>, and then the client's
  configured \<open>options.allowedMentions\<close> is returned as it is.
\<close>

datatype 'i mention_setting = Blanket | Explicit "'i list" | Unset

record 'i allowed_mentions =
  everyone :: bool
  allowed_roles :: "'i mention_setting"
  allowed_users :: "'i mention_setting"
  repliedUser :: "bool option"

record 'i formatted_mentions =
  parse :: "string list"
  result_roles :: "'i list option"
  result_users :: "'i list option"
  replied_user :: "bool option"

datatype ('c, 'i) normalized = ConfiguredDefault 'c | Canonical "'i formatted_mentions"

definition formatAllowedMentions ::
  "'c \<Rightarrow> 'i allowed_mentions option \<Rightarrow> error + ('c, 'i) normalized"
where
  "formatAllowedMentions configured allowed =
     (case allowed of
        None \<Rightarrow> Inr (ConfiguredDefault configured)
      | Some a \<Rightarrow>
          let r0 = \<lparr>parse = [], result_roles = None, result_users = None, replied_user = None\<rparr>;
              r1 = (if everyone a then r0\<lparr>parse := parse r0 @ [''everyone'']\<rparr> else r0)
          in
          (case (case allowed_roles a of
                   Blanket \<Rightarrow> Inr (r1\<lparr>parse := parse r1 @ [''roles'']\<rparr>)
                 | Explicit rs \<Rightarrow>
                     if length rs > 100 then Inl TooManyRoleMentions
                     else Inr (r1\<lparr>result_roles := Some rs\<rparr>)
                 | Unset \<Rightarrow> Inr r1) of
             Inl e \<Rightarrow> Inl e
           | Inr r2 \<Rightarrow>
          (case (case allowed_users a of
                   Blanket \<Rightarrow> Inr (r2\<lparr>parse := parse r2 @ [''users'']\<rparr>)
                 | Explicit us \<Rightarrow>
                     if length us > 100 then Inl TooManyUserMentions
                     else Inr (r2\<lparr>result_users := Some us\<rparr>)
                 | Unset \<Rightarrow> Inr r2) of
             Inl e \<Rightarrow> Inl e
           | Inr r3 \<Rightarrow>
               Inr (Canonical (if repliedUser a \<noteq> None then r3\<lparr>replied_user := repliedUser a\<rparr> else r3)))))"

section \<open>Bulk deletion and the purge pipeline\<close>

text \<open>
  Message identifiers are snowflakes: decimal strings, here the natural numbers they
  denote (a non-empty string is truthy, so \<open>if(invalidMessage)\<close> holds for every
  identifier found). \<open>Date.now()\<close> is the parameter \<open>now\<close>, one reading for the whole
  call. The transport is a parameter: \<open>accepts\<close> tells whether it fulfils a request,
  \<open>fetch\<close> is the page it answers to a \<open>GET\<close> on the messages of a channel. Every
  function returns the requests it submitted, in order.
  \<open>messageID < oldestAllowedSnowflake\<close> compares a string with a number: the string
  becomes the double nearest to the identifier. The cutoff is the number the
  expression \<open>(Date.now() - 1421280000000) * 4194304\<close> computes, for the readings of a
  clock the exact product (a 53-bit integer times a power of two).
\<close>

record message =
  mid :: nat
  timestamp :: int
  content :: string

record transport =
  accepts :: "request \<Rightarrow> bool"
  fetch :: "string \<Rightarrow> nat option \<Rightarrow> nat option \<Rightarrow> error + message list"

definition oldestAllowedSnowflake :: "int \<Rightarrow> int" where
  "oldestAllowedSnowflake now = (now - 1421280000000) * 4194304"

definition deleteMessage ::
  "transport \<Rightarrow> string \<Rightarrow> nat \<Rightarrow> string option \<Rightarrow> error option \<times> request list"
where
  "deleteMessage T channelID messageID reason =
     (if accepts T (DeleteMessage channelID messageID reason) then None else Some TransportError,
      [DeleteMessage channelID messageID reason])"

function deleteMessages ::
  "transport \<Rightarrow> int \<Rightarrow> string \<Rightarrow> nat list \<Rightarrow> string option \<Rightarrow> error option \<times> request list"
where
  "deleteMessages T now channelID messageIDs reason =
     (if length messageIDs = 0 then (None, [])
      else if length messageIDs = 1 then deleteMessage T channelID (messageIDs ! 0) reason
      else
        (case find (\<lambda>messageID. double_of_int (int messageID)
                                    < double_of_int (oldestAllowedSnowflake now)) messageIDs of
           Some invalidMessage \<Rightarrow> (Some (MessageTooOld invalidMessage), [])
         | None \<Rightarrow>
             if length messageIDs > 100 then
               (if accepts T (BulkDelete channelID (take 100 messageIDs) reason)
                then (case deleteMessages T now channelID (drop 100 messageIDs) reason of
                        (r, reqs) \<Rightarrow> (r, BulkDelete channelID (take 100 messageIDs) reason # reqs))
                else (Some TransportError, [BulkDelete channelID (take 100 messageIDs) reason]))
             else
               (if accepts T (BulkDelete channelID messageIDs reason) then None else Some TransportError,
                [BulkDelete channelID messageIDs reason])))"
  by pat_completeness auto
termination
  by (relation "measure (\<lambda>(T, now, channelID, messageIDs, reason). length messageIDs)") auto

declare deleteMessages.simps [simp del]

text \<open>
  \<open>msg.content.includes(filter)\<close>: the filter string occurs in the content.
\<close>

fun content_includes :: "string \<Rightarrow> string \<Rightarrow> bool" where
  "content_includes [] sub = (sub = [])"
| "content_includes (c # cs) sub = (take (length sub) (c # cs) = sub \<or> content_includes cs sub)"

datatype message_filter = Substring string | Predicate "message \<Rightarrow> bool"

fun filter_accepts :: "message_filter \<Rightarrow> message \<Rightarrow> bool" where
  "filter_accepts (Substring sub) msg = content_includes (content msg) sub"
| "filter_accepts (Predicate f) msg = f msg"

record purge_options =
  opt_before :: "nat option"
  opt_after :: "nat option"
  opt_filter :: "message_filter option"
  opt_limit :: "int option"
  opt_reason :: "string option"

text \<open>
  The variables shared by the closures \<open>del\<close> and \<open>checkToDelete\<close>, with the events of
  the run so far.
\<close>

record purge_state =
  remaining :: int
  toDelete :: "nat list"
  deleted :: nat
  done_flag :: bool
  trace :: "event list"

text \<open>
  The \<open>for\<close> loop of \<open>del\<close> over one page; the flag tells that the loop left through
  \<open>done = true; return\<close> at a message older than 14 days.
\<close>

fun scan_page ::
  "message_filter option \<Rightarrow> int \<Rightarrow> message list \<Rightarrow> int \<Rightarrow> nat list \<Rightarrow> int \<times> nat list \<times> bool"
where
  "scan_page flt now [] lim buf = (lim, buf, False)"
| "scan_page flt now (msg # msgs) lim buf =
     (if lim \<noteq> -1 \<and> lim \<le> 0 then (lim, buf, False)
      else if timestamp msg < now - 1209600000 then (lim, buf, True)
      else scan_page flt now msgs
             (if lim \<noteq> -1 then lim - 1 else lim)
             (if (case flt of None \<Rightarrow> True | Some f \<Rightarrow> filter_accepts f msg) then buf @ [mid msg] else buf))"

partial_function (option) del ::
  "transport \<Rightarrow> int \<Rightarrow> string \<Rightarrow> message_filter option \<Rightarrow> nat option \<Rightarrow> nat option \<Rightarrow>
   purge_state \<Rightarrow> ((error + unit) \<times> purge_state) option"
where
  "del T now channelID flt before_id after_id st =
     (let st1 = st\<lparr>trace := trace st @ [Request (GetMessages channelID 100 before_id after_id)]\<rparr> in
      case fetch T channelID before_id after_id of
        Inl e \<Rightarrow> Some (Inl e, st1)
      | Inr messages \<Rightarrow>
          if remaining st1 \<noteq> -1 \<and> remaining st1 \<le> 0 then Some (Inr (), st1\<lparr>done_flag := True\<rparr>)
          else
            (case scan_page flt now messages (remaining st1) (toDelete st1) of
               (lim, buf, too_old) \<Rightarrow>
                 let st2 = st1\<lparr>remaining := lim, toDelete := buf\<rparr> in
                 if too_old then Some (Inr (), st2\<lparr>done_flag := True\<rparr>)
                 else if (lim \<noteq> -1 \<and> lim \<le> 0) \<or> length messages < 100
                   then Some (Inr (), st2\<lparr>done_flag := True\<rparr>)
                 else del T now channelID flt
                        (if before_id \<noteq> None \<or> after_id = None then Some (mid (last messages)) else None)
                        (if after_id \<noteq> None then Some (mid (hd messages)) else None)
                        st2))"

text \<open>
  \<open>checkToDelete\<close>. When \<open>done\<close> holds, \<open>messageIDs\<close> is the buffer itself (an array is
  truthy even when empty); otherwise it is the first 100 identifiers, spliced off the
  buffer, once there are that many. A run that polls forever has no result (\<open>None\<close>).
\<close>

partial_function (option) checkToDelete ::
  "transport \<Rightarrow> int \<Rightarrow> string \<Rightarrow> string option \<Rightarrow> purge_state \<Rightarrow>
   ((error + nat) \<times> purge_state) option"
where
  "checkToDelete T now channelID reason st =
     (case (if done_flag st then Some (toDelete st)
            else if length (toDelete st) \<ge> 100 then Some (take 100 (toDelete st))
            else None) of
        Some messageIDs \<Rightarrow>
          (let st1 = st\<lparr>toDelete := (if done_flag st then toDelete st else drop 100 (toDelete st)),
                        deleted := deleted st + length messageIDs\<rparr>
           in case deleteMessages T now channelID messageIDs reason of
                (Some e, reqs) \<Rightarrow> Some (Inl e, st1\<lparr>trace := trace st1 @ map Request reqs\<rparr>)
              | (None, reqs) \<Rightarrow>
                  if done_flag st1
                  then Some (Inr (deleted st1), st1\<lparr>trace := trace st1 @ map Request reqs\<rparr>)
                  else checkToDelete T now channelID reason
                         (st1\<lparr>trace := trace st1 @ map Request reqs @ [Sleep 1000]\<rparr>))
      | None \<Rightarrow>
          if done_flag st then Some (Inr (deleted st), st)
          else checkToDelete T now channelID reason (st\<lparr>trace := trace st @ [Sleep 250]\<rparr>))"

text \<open>
  \<open>purgeChannel\<close>: \<open>await del(options.before, options.after)\<close> lets the whole scan
  settle, and only then \<open>checkToDelete()\<close> is called. The result is the value the promise
  settles with, together with the events of the run.
\<close>

definition purgeChannel ::
  "transport \<Rightarrow> int \<Rightarrow> string \<Rightarrow> purge_options \<Rightarrow> ((error + nat) \<times> event list) option"
where
  "purgeChannel T now channelID opts =
     (case opt_limit opts of
        None \<Rightarrow> Some (Inl InvalidLimit, [])
      | Some lim \<Rightarrow>
          if lim \<noteq> -1 \<and> lim \<le> 0 then Some (Inr 0, [])
          else
            (case del T now channelID (opt_filter opts) (opt_before opts) (opt_after opts)
                    \<lparr>remaining = lim, toDelete = [], deleted = 0, done_flag = False, trace = []\<rparr> of
               None \<Rightarrow> None
             | Some (Inl e, st) \<Rightarrow> Some (Inl e, trace st)
             | Some (Inr u, st) \<Rightarrow>
                 (case checkToDelete T now channelID (opt_reason opts) st of
                    None \<Rightarrow> None
                  | Some (r, st') \<Rightarrow> Some (r, trace st'))))"

text \<open>
  Modelled from the spec: the creation time a snowflake embeds (the accessor of the
  entity base class is not among the sources). It is the identifier without its low 22
  bits, in milliseconds from the epoch 1420070400000; these are the constants behind
  \<open>(Date.now() - 1421280000000) * 4194304\<close> in \<open>deleteMessages\<close>, 1421280000000
  being the epoch plus 14 days.
\<close>

definition snowflake_time :: "nat \<Rightarrow> int" where
  "snowflake_time i = int i div 4194304 + 1420070400000"

text \<open>
  A sample channel: 250 messages sent one day before the clock reading 1700000000000,
  newest first, and a transport that fulfils every request and serves the channel in
  pages of at most 100, backwards from the \<open>before\<close> cursor (it serves no \<open>after\<close>
  cursor).
\<close>

definition sample_now :: int where
  "sample_now = 1700000000000"

definition sample_message :: "nat \<Rightarrow> message" where
  "sample_message i =
     \<lparr>mid = 1173747453132800000 + i, timestamp = 1699913600000, content = ''hello''\<rparr>"

definition sample_channel :: "message list" where
  "sample_channel = map sample_message (rev [0..<250])"

definition sample_transport :: transport where
  "sample_transport =
     \<lparr>accepts = (\<lambda>r. True),
      fetch = (\<lambda>channelID before_id after_id.
        case after_id of
          Some a \<Rightarrow> Inl TransportError
        | None \<Rightarrow>
            Inr (take 100 (case before_id of
                             None \<Rightarrow> sample_channel
                           | Some b \<Rightarrow> filter (\<lambda>m. mid m < b) sample_channel)))\<rparr>"

definition purge_all :: "string option \<Rightarrow> purge_options" where
  "purge_all reason =
     \<lparr>opt_before = None, opt_after = None, opt_filter = None, opt_limit = Some (- 1),
      opt_reason = reason\<rparr>"

section \<open>Notions used to state the properties\<close>




definition three_adds :: "(string, string) op list" where
  "three_adds =
     [Add (raw_of ''1'') (ExtraIterable []) False,
      Add (raw_of ''2'') (ExtraIterable []) False,
      Add (raw_of ''3'') (ExtraIterable []) False]"

definition store_with_one :: "sample_entity collection" where
  "store_with_one =
     \<lparr>limit = Some 2, entries = [(Some ''1'', 0)],
      heap = [\<lparr>ent_id = Some ''1'', ent_data = ''old'', ent_args = []\<rparr>]\<rparr>"

definition fresh_data :: "string \<Rightarrow> string obj" where
  "fresh_data i = Raw \<lparr>raw_id = Some i, raw_data = ''new''\<rparr>"

text \<open>
  The siblings the specification names for a move of \<open>chn\<close> to \<open>pos\<close>: the entries of
  the same category whose position lies in the closed range between the current and
  the requested position, the moved entity left out.
\<close>

definition channel_siblings :: "channel \<Rightarrow> int \<Rightarrow> channel list \<Rightarrow> channel list" where
  "channel_siblings chn pos chans =
     filter (\<lambda>c. ctype c = ctype chn
               \<and> min pos (cposition chn) \<le> cposition c
               \<and> cposition c \<le> max pos (cposition chn)
               \<and> cid c \<noteq> cid chn) chans"

definition role_siblings :: "role \<Rightarrow> int \<Rightarrow> role list \<Rightarrow> role list" where
  "role_siblings rl pos rs =
     filter (\<lambda>r. min pos (rposition rl) \<le> rposition r
               \<and> rposition r \<le> max pos (rposition rl)
               \<and> rid r \<noteq> rid rl) rs"

text \<open>Ten channels of one type \<open>t\<close>, the one with identifier \<open>ids ! i\<close> at position \<open>i\<close>.\<close>

definition ten_siblings :: "string list \<Rightarrow> nat \<Rightarrow> channel list" where
  "ten_siblings ids t = map (\<lambda>i. \<lparr>cid = ids ! i, ctype = t, cposition = int i\<rparr>) [0..<10]"

text \<open>A cached guild for concrete runs: ten channels of one type, cached in no particular order, and three roles.\<close>

definition sample_guild :: guild where
  "sample_guild =
     \<lparr>channels = map (\<lambda>i. \<lparr>cid = [''c0'', ''c1'', ''c2'', ''c3'', ''c4'', ''c5'', ''c6'', ''c7'', ''c8'', ''c9''] ! i,
                             ctype = 0, cposition = int i\<rparr>)
                    [7, 2, 9, 4, 0, 3, 8, 5, 1, 6],
      roles = [\<lparr>rid = ''g'', rposition = 0\<rparr>, \<lparr>rid = ''r2'', rposition = 2\<rparr>,
               \<lparr>rid = ''r1'', rposition = 1\<rparr>]\<rparr>"

definition sample_client :: client where
  "sample_client = \<lparr>guilds = [''g'' \<mapsto> sample_guild], channelGuildMap = (\<lambda>c. Some ''g'')\<rparr>"

definition no_options :: position_options where
  "no_options = \<lparr>lockPermissions = None, parentID = None\<rparr>"

text \<open>An explicit allow-list of more than 100 entries in the \<open>roles\<close> or \<open>users\<close> field.\<close>

definition too_long :: "'i allowed_mentions \<Rightarrow> bool" where
  "too_long a \<longleftrightarrow>
     (case allowed_roles a of Explicit rs \<Rightarrow> 100 < length rs | _ \<Rightarrow> False)
   \<or> (case allowed_users a of Explicit us \<Rightarrow> 100 < length us | _ \<Rightarrow> False)"

text \<open>The two kinds of events a purge produces besides waiting.\<close>

fun is_fetch :: "event \<Rightarrow> bool" where
  "is_fetch (Request (GetMessages channelID n before_id after_id)) = True"
| "is_fetch _ = False"

fun is_delete :: "event \<Rightarrow> bool" where
  "is_delete (Request (DeleteMessage channelID messageID reason)) = True"
| "is_delete (Request (BulkDelete channelID messageIDs reason)) = True"
| "is_delete _ = False"

section \<open>Properties of the number model\<close>

lemma double_exponent_small: "n < 9007199254740992 \<Longrightarrow> double_exponent n = 0"
  by (subst double_exponent.simps) simp

lemma double_exponent_large:
  "\<not> n < 9007199254740992 \<Longrightarrow> double_exponent n = Suc (double_exponent (n div 2))"
  by (subst double_exponent.simps) simp

lemma double_of_nat_small: "n < 9007199254740992 \<Longrightarrow> double_of_nat n = n"
  by (simp add: double_of_nat_def round_at_def double_exponent_small)

lemma double_of_int_safe: "\<bar>x\<bar> < 9007199254740992 \<Longrightarrow> double_of_int x = x"
  by (auto simp: double_of_int_def double_of_nat_small)

lemma mantissa_less: "n div 2 ^ double_exponent n < 9007199254740992"
proof (induction n rule: double_exponent.induct)
  case (1 n)
  show ?case
  proof (cases "n < 9007199254740992")
    case True
    then show ?thesis by (simp add: double_exponent_small)
  next
    case False
    have "n div 2 ^ Suc (double_exponent (n div 2)) = (n div 2) div 2 ^ double_exponent (n div 2)"
      by (simp add: div_mult2_eq)
    with 1[OF False] False show ?thesis by (simp add: double_exponent_large)
  qed
qed

lemma mantissa_ge:
  "0 < double_exponent n \<Longrightarrow> 4503599627370496 \<le> n div 2 ^ double_exponent n"
proof (induction n rule: double_exponent.induct)
  case (1 n)
  from 1(2) have large: "\<not> n < 9007199254740992"
    using double_exponent_small by fastforce
  have d: "n div 2 ^ Suc (double_exponent (n div 2)) = (n div 2) div 2 ^ double_exponent (n div 2)"
    by (simp add: div_mult2_eq)
  show ?case
  proof (cases "double_exponent (n div 2) = 0")
    case True
    with large d show ?thesis by (simp add: double_exponent_large)
  next
    case False
    with 1(1)[OF large] large d show ?thesis by (simp add: double_exponent_large)
  qed
qed

lemma double_exponent_mono: "m \<le> n \<Longrightarrow> double_exponent m \<le> double_exponent n"
proof (induction n arbitrary: m rule: double_exponent.induct)
  case (1 n)
  show ?case
  proof (cases "m < 9007199254740992")
    case True
    then show ?thesis by (simp add: double_exponent_small)
  next
    case False
    with 1(2) have large: "\<not> n < 9007199254740992" by simp
    from 1(2) have "m div 2 \<le> n div 2" by (rule div_le_mono)
    from 1(1)[OF large this] False large show ?thesis
      by (simp add: double_exponent_large)
  qed
qed

lemma round_at_bounds:
  "(n div 2 ^ e) * 2 ^ e \<le> round_at e n" "round_at e n \<le> (n div 2 ^ e + 1) * 2 ^ e"
  by (simp_all add: round_at_def Let_def)

lemma round_at_mono:
  assumes "m \<le> n"
  shows "round_at e m \<le> round_at e n"
proof (cases "m div 2 ^ e = n div 2 ^ e")
  case False
  from assms have "m div 2 ^ e \<le> n div 2 ^ e" by (rule div_le_mono)
  with False have "m div 2 ^ e + 1 \<le> n div 2 ^ e" by simp
  then have "(m div 2 ^ e + 1) * 2 ^ e \<le> (n div 2 ^ e) * 2 ^ e" by (rule mult_le_mono1)
  with round_at_bounds(2)[where e=e and n=m] round_at_bounds(1)[where e=e and n=n] show ?thesis by linarith
next
  case True
  have "(m div 2 ^ e) * 2 ^ e + m mod 2 ^ e = m" "(n div 2 ^ e) * 2 ^ e + n mod 2 ^ e = n"
    by (rule div_mult_mod_eq)+
  with True assms have r: "m mod 2 ^ e \<le> n mod 2 ^ e"
    by (metis add_le_cancel_left)
  show ?thesis
  proof (cases "2 ^ e < 2 * (m mod 2 ^ e) \<or> (2 * (m mod 2 ^ e) = 2 ^ e \<and> odd (m div 2 ^ e))")
    case up: True
    from up r have "2 ^ e < 2 * (n mod 2 ^ e) \<or> (2 * (n mod 2 ^ e) = 2 ^ e \<and> odd (n div 2 ^ e))"
      using True by (cases "2 * (n mod 2 ^ e) = (2::nat) ^ e") auto
    with up True show ?thesis by (simp add: round_at_def Let_def)
  next
    case down: False
    then have "round_at e m = (n div 2 ^ e) * 2 ^ e"
      using True by (simp add: round_at_def Let_def)
    with round_at_bounds(1)[where e=e and n=n] show ?thesis by simp
  qed
qed

lemma double_of_nat_mono:
  assumes "m \<le> n"
  shows "double_of_nat m \<le> double_of_nat n"
proof (cases "double_exponent m = double_exponent n")
  case True
  with round_at_mono[OF assms] show ?thesis by (simp add: double_of_nat_def)
next
  case False
  with double_exponent_mono[OF assms] have lt: "double_exponent m < double_exponent n" by simp
  let ?em = "double_exponent m" and ?en = "double_exponent n"
  have "round_at ?em m \<le> (m div 2 ^ ?em + 1) * 2 ^ ?em" by (rule round_at_bounds)
  also have "\<dots> \<le> 9007199254740992 * 2 ^ ?em"
    using mantissa_less[of m] by (intro mult_le_mono1) simp
  also have "\<dots> = 4503599627370496 * 2 ^ Suc ?em" by simp
  also have "\<dots> \<le> 4503599627370496 * 2 ^ ?en"
    using lt by (intro mult_le_mono2 power_increasing) simp_all
  also have "\<dots> \<le> (n div 2 ^ ?en) * 2 ^ ?en"
    using mantissa_ge[of n] lt by (intro mult_le_mono1) simp
  also have "\<dots> \<le> round_at ?en n" by (rule round_at_bounds)
  finally show ?thesis by (simp add: double_of_nat_def)
qed

lemma double_of_int_mono: "x \<le> y \<Longrightarrow> double_of_int x \<le> double_of_int y"
proof -
  assume xy: "x \<le> y"
  show ?thesis
  proof (cases "x < 0")
    case xneg: True
    show ?thesis
    proof (cases "y < 0")
      case True
      with xy have "nat (- y) \<le> nat (- x)" by simp
      from double_of_nat_mono[OF this] xneg True show ?thesis by (simp add: double_of_int_def)
    next
      case False
      with xneg show ?thesis by (simp add: double_of_int_def)
    qed
  next
    case False
    with xy have "nat x \<le> nat y" "\<not> y < 0" by simp_all
    with double_of_nat_mono[OF this(1)] False show ?thesis by (simp add: double_of_int_def)
  qed
qed

lemma double_of_int_examples:
  "double_of_int 1169036410879999999 = 1169036410880000000"
  "double_of_int 1169036410879999872 = 1169036410880000000"
  "double_of_int 1169036410879999871 = 1169036410879999744"
  "double_of_int (- 9007199254740993) = - 9007199254740992"
  "double_of_int (- 9007199254740994) = - 9007199254740994"
  "double_of_int 9007199254740995 = 9007199254740996"
  by (simp_all add: double_of_int_def double_of_nat_def round_at_def double_exponent.simps Let_def)

section \<open>Properties of the bounded store\<close>


lemma limit_materialize: "limit (snd (materialize B ob ex s)) = limit s"
  by (cases ob) (auto split: sum.splits)

lemma entries_materialize: "entries (snd (materialize B ob ex s)) = entries s"
  by (cases ob) (auto split: sum.splits)

lemma limit_enforce: "limit (enforce_limit s) = limit s"
  by (auto simp: enforce_limit_def split: option.splits)

lemma limit_add: "limit (snd (add B ob ex r s)) = limit s"
  using limit_materialize[of B ob ex s]
  by (auto simp: add_def limit_enforce split: prod.splits sum.splits)

lemma limit_update: "limit (snd (update B ob ex r s)) = limit s"
  by (auto simp: update_def limit_add split: option.splits)

lemma limit_remove: "limit (snd (remove B ob s)) = limit s"
  by (auto simp: remove_def split: option.splits)

lemma limit_step: "limit (step B oper s) = limit s"
  by (cases oper) (simp_all add: limit_add limit_update limit_remove)



lemma unremoved_record_new_Nil: "record_new [] H = H"
  by (simp add: record_new_def)



















text \<open>
  C2 fails on the code. \<open>add\<close> builds the entity with \<open>new this.baseObject(obj, ...extra)\<close>:
  the extra parameter is spread, not passed. With \<open>extra\<close> left out, or a non-iterable
  object as the callers pass (a guild, the client), the spread throws and nothing is
  stored; an iterable \<open>extra\<close> reaches the constructor as its elements.
\<close>

theorem add_spreads_extra:
  "add sample_object (raw_of ''1'') ExtraUndefined False (new_collection None [])
     = (Inl SpreadNotIterable, new_collection None [])
   \<and> add sample_object (raw_of ''1'') (ExtraObject ''guild'') False (new_collection (Some 5) [])
     = (Inl SpreadNotIterable, new_collection (Some 5) [])
   \<and> add sample_object (raw_of ''1'') (ExtraIterable [''g'', ''h'']) False (new_collection None [])
     = (Inr 0, \<lparr>limit = None, entries = [(Some ''1'', 0)],
                heap = [\<lparr>ent_id = Some ''1'', ent_data = ''1'', ent_args = [''g'', ''h'']\<rparr>]\<rparr>)"
  by (simp add: add_def new_collection_def raw_of_def sample_object_def enforce_limit_def)

subsection \<open>Stores of capacity zero and \<open>update\<close>\<close>

lemma entries_add_zero: "limit s = Some 0 \<Longrightarrow> entries (snd (add B ob ex r s)) = entries s"
  by (simp add: add_def entries_materialize)

lemma entries_update_zero: "limit s = Some 0 \<Longrightarrow> entries (snd (update B ob ex r s)) = entries s"
  by (auto simp: update_def entries_add_zero split: option.splits)

lemma materialize_not_missing: "fst (materialize B ob ex s) \<noteq> Inl MissingObjectId"
  by (cases ob; cases ex) auto

lemma empty_zero_step:
  "limit s = Some 0 \<Longrightarrow> entries s = [] \<Longrightarrow> entries (step B oper s) = []"
  by (cases oper) (auto simp: entries_add_zero entries_update_zero remove_def)

lemma empty_zero_run:
  "limit s = Some 0 \<Longrightarrow> entries s = [] \<Longrightarrow> entries (run B ops s) = []"
proof (induction ops arbitrary: s)
  case Nil
  then show ?case by (simp add: run_def)
next
  case (Cons oper ops)
  have "entries (run B ops (step B oper s)) = []"
    using Cons.prems by (intro Cons.IH) (simp_all add: limit_step empty_zero_step)
  then show ?case by (simp add: run_def)
qed

text \<open>
  C6, as stated, fails: on a store of capacity zero and an object without an identifier
  \<open>add\<close> returns a materialized entity, \<open>update\<close> throws "Missing object id".
\<close>

theorem update_differs_from_add:
  "update sample_object raw_without_id (ExtraIterable []) False (new_collection (Some 0) [])
     = (Inl MissingObjectId, new_collection (Some 0) [])
   \<and> add sample_object raw_without_id (ExtraIterable []) False (new_collection (Some 0) [])
     = (Inr 0, \<lparr>limit = Some 0, entries = [],
                heap = [\<lparr>ent_id = None, ent_data = ''anonymous'', ent_args = []\<rparr>]\<rparr>)"
  by (simp add: update_def add_def falsy_id_def new_collection_def raw_without_id_def sample_object_def)

text \<open>
  C6 (amended). \<open>update\<close> on an object whose identifier has an entry mutates that entry
  in place: it returns the stored reference, leaves the entries and every other object
  of the heap as they are, and the object behind the reference becomes what the
  entity's own \<open>update\<close> makes of it. \<open>update\<close> on an identifier without an entry does
  exactly what \<open>add\<close> does (same result, same store), for stores of every capacity, zero
  included. Both hold for objects that carry a non-empty identifier; for an object
  lacking one \<open>update\<close> throws "Missing object id" and leaves the store as it is,
  whatever the capacity.
\<close>

theorem update_in_place_or_add:
  "(\<not> falsy_id (obj_id B s ob) \<and> map_of (entries s) (obj_id B s ob) = Some p \<longrightarrow>
        fst (update B ob ex r s) = Inr p
      \<and> entries (snd (update B ob ex r s)) = entries s
      \<and> limit (snd (update B ob ex r s)) = limit s
      \<and> length (heap (snd (update B ob ex r s))) = length (heap s)
      \<and> (\<forall>q. q \<noteq> p \<longrightarrow> heap (snd (update B ob ex r s)) ! q = heap s ! q)
      \<and> (p < length (heap s) \<longrightarrow>
           heap (snd (update B ob ex r s)) ! p = update_entity B (heap s ! p) (obj_view s ob) ex))
   \<and> (\<not> falsy_id (obj_id B s ob) \<and> map_of (entries s) (obj_id B s ob) = None \<longrightarrow>
        update B ob ex r s = add B ob ex r s)
   \<and> (falsy_id (obj_id B s ob) \<longrightarrow> update B ob ex r s = (Inl MissingObjectId, s))"
  by (simp add: update_def)

theorem update_in_place_or_add_witness:
  "update sample_object (fresh_data ''1'') ExtraUndefined False store_with_one
     = (Inr 0, store_with_one\<lparr>heap := [\<lparr>ent_id = Some ''1'', ent_data = ''new'', ent_args = []\<rparr>]\<rparr>)
   \<and> update sample_object (fresh_data ''2'') (ExtraIterable []) False store_with_one
     = add sample_object (fresh_data ''2'') (ExtraIterable []) False store_with_one
   \<and> update sample_object raw_without_id (ExtraIterable []) False store_with_one
     = (Inl MissingObjectId, store_with_one)"
proof -
  have e: "\<not> falsy_id (obj_id sample_object store_with_one (fresh_data ''1''))"
    "map_of (entries store_with_one) (obj_id sample_object store_with_one (fresh_data ''1'')) = Some 0"
    by (simp_all add: falsy_id_def fresh_data_def store_with_one_def)
  have n: "\<not> falsy_id (obj_id sample_object store_with_one (fresh_data ''2''))"
    "map_of (entries store_with_one) (obj_id sample_object store_with_one (fresh_data ''2'')) = None"
    by (simp_all add: falsy_id_def fresh_data_def store_with_one_def)
  have m: "falsy_id (obj_id sample_object store_with_one raw_without_id)"
    by (simp add: falsy_id_def raw_without_id_def)
  note t1 = update_in_place_or_add[of sample_object store_with_one "fresh_data ''1''" 0 ExtraUndefined False]
  note t2 = update_in_place_or_add[of sample_object store_with_one "fresh_data ''2''" 0 "ExtraIterable []" False]
  note t3 = update_in_place_or_add[of sample_object store_with_one raw_without_id 0 "ExtraIterable []" False]
  from t1 e have r1: "fst (update sample_object (fresh_data ''1'') ExtraUndefined False store_with_one) = Inr 0"
    and e1: "entries (snd (update sample_object (fresh_data ''1'') ExtraUndefined False store_with_one)) = entries store_with_one"
    and l1: "limit (snd (update sample_object (fresh_data ''1'') ExtraUndefined False store_with_one)) = limit store_with_one"
    and n1: "length (heap (snd (update sample_object (fresh_data ''1'') ExtraUndefined False store_with_one))) = length (heap store_with_one)"
    and h1: "0 < length (heap store_with_one) \<longrightarrow> heap (snd (update sample_object (fresh_data ''1'') ExtraUndefined False store_with_one)) ! 0
       = update_entity sample_object (heap store_with_one ! 0) (obj_view store_with_one (fresh_data ''1'')) ExtraUndefined"
    by blast+
  obtain res s' where u: "update sample_object (fresh_data ''1'') ExtraUndefined False store_with_one = (res, s')"
    by (cases "update sample_object (fresh_data ''1'') ExtraUndefined False store_with_one")
  have "length (heap s') = 1" using n1 u by (simp add: store_with_one_def)
  moreover have "heap s' ! 0 = \<lparr>ent_id = Some ''1'', ent_data = ''new'', ent_args = []\<rparr>"
    using h1 u by (simp add: store_with_one_def sample_object_def fresh_data_def)
  ultimately have "heap s' = [\<lparr>ent_id = Some ''1'', ent_data = ''new'', ent_args = []\<rparr>]"
    by (cases "heap s'") auto
  with e1 l1 u have "s' = store_with_one\<lparr>heap := [\<lparr>ent_id = Some ''1'', ent_data = ''new'', ent_args = []\<rparr>]\<rparr>"
    by (simp add: store_with_one_def)
  with r1 u have "update sample_object (fresh_data ''1'') ExtraUndefined False store_with_one
     = (Inr 0, store_with_one\<lparr>heap := [\<lparr>ent_id = Some ''1'', ent_data = ''new'', ent_args = []\<rparr>]\<rparr>)"
    by simp
  moreover from t2 n have "update sample_object (fresh_data ''2'') (ExtraIterable []) False store_with_one
     = add sample_object (fresh_data ''2'') (ExtraIterable []) False store_with_one" by blast
  moreover from t3 m have "update sample_object raw_without_id (ExtraIterable []) False store_with_one
     = (Inl MissingObjectId, store_with_one)" by blast
  ultimately show ?thesis by blast
qed

text \<open>
  C7, as stated, fails for \<open>update\<close>: it checks the identifier before it looks at the
  capacity, so on a store of capacity zero an object without an identifier is an error,
  and so is one whose identifier is the empty string.
\<close>

theorem update_validates_at_capacity_zero:
  "fst (update sample_object raw_without_id (ExtraIterable []) False (new_collection (Some 0) []))
     = Inl MissingObjectId
   \<and> fst (update sample_object (raw_of []) (ExtraIterable []) False (new_collection (Some 0) []))
     = Inl MissingObjectId"
  by (simp add: update_def falsy_id_def new_collection_def raw_without_id_def raw_of_def)

text \<open>
  C7 (amended). On a store of capacity exactly zero \<open>add\<close> skips the identifier
  validation: whatever the object, the result is never "Missing object id", and nothing
  is stored; a raw object (its constructor arguments given as an iterable) is
  materialized, an instance is returned as it is. \<open>update\<close> stores nothing there either,
  but it does validate: an object lacking an identifier is "Missing object id". No
  sequence of operations on a store of capacity zero ever stores an entry. On a store of
  nonzero capacity, \<open>add\<close> with an object lacking an identifier fails with
  "Missing object id".
\<close>

theorem zero_capacity_store:
  "(limit s = Some 0 \<longrightarrow>
        fst (add B ob ex r s) \<noteq> Inl MissingObjectId
      \<and> entries (snd (add B ob ex r s)) = entries s
      \<and> (\<forall>rw args. ob = Raw rw \<and> ex = ExtraIterable args \<longrightarrow>
            add B ob ex r s = (Inr (length (heap s)), s\<lparr>heap := heap s @ [construct B rw args]\<rparr>))
      \<and> (\<forall>p. ob = Inst p \<longrightarrow> add B ob ex r s = (Inr p, s))
      \<and> entries (snd (update B ob ex r s)) = entries s
      \<and> (falsy_id (obj_id B s ob) \<longrightarrow> update B ob ex r s = (Inl MissingObjectId, s)))
   \<and> entries (run B ops (new_collection (Some 0) h)) = []
   \<and> (limit s \<noteq> Some 0 \<and> obj_id B s ob = None \<longrightarrow> add B ob ex r s = (Inl MissingObjectId, s))"
proof -
  have "entries (run B ops (new_collection (Some 0) h)) = []"
    by (rule empty_zero_run) (simp_all add: new_collection_def)
  moreover have "fst (add B ob ex r s) \<noteq> Inl MissingObjectId" if "limit s = Some 0"
    using that materialize_not_missing[of B ob ex s] by (simp add: add_def)
  moreover have "update B ob ex r s = (Inl MissingObjectId, s)" if "falsy_id (obj_id B s ob)"
    using that by (simp add: update_def)
  moreover have "add B ob ex r s = (Inl MissingObjectId, s)"
    if "limit s \<noteq> Some 0 \<and> obj_id B s ob = None"
    using that by (simp add: add_def)
  moreover have "add B ob ex r s = (Inr (length (heap s)), s\<lparr>heap := heap s @ [construct B rw args]\<rparr>)"
    if "limit s = Some 0" "ob = Raw rw \<and> ex = ExtraIterable args" for rw args
    using that by (simp add: add_def)
  moreover have "add B ob ex r s = (Inr p, s)" if "limit s = Some 0" "ob = Inst p" for p
    using that by (simp add: add_def)
  ultimately show ?thesis
    using entries_add_zero[of s B ob ex r] entries_update_zero[of s B ob ex r] by blast
qed

theorem zero_capacity_store_witness:
  "add sample_object raw_without_id (ExtraIterable []) False (new_collection (Some 0) [])
     = (Inr 0, \<lparr>limit = Some 0, entries = [],
                heap = [\<lparr>ent_id = None, ent_data = ''anonymous'', ent_args = []\<rparr>]\<rparr>)
   \<and> update sample_object raw_without_id (ExtraIterable []) False (new_collection (Some 0) [])
     = (Inl MissingObjectId, new_collection (Some 0) [])
   \<and> entries (run sample_object three_adds (new_collection (Some 0) [])) = []
   \<and> add sample_object raw_without_id (ExtraIterable []) False (new_collection (Some 2) [])
     = (Inl MissingObjectId, new_collection (Some 2) [])"
proof -
  note z = zero_capacity_store[of "new_collection (Some 0) []" sample_object raw_without_id
      "ExtraIterable []" False three_adds "[]"]
  note n = zero_capacity_store[of "new_collection (Some 2) []" sample_object raw_without_id
      "ExtraIterable []" False three_adds "[]"]
  have l0: "limit (new_collection (Some 0) ([] :: sample_entity list)) = Some 0"
    by (simp add: new_collection_def)
  have f: "falsy_id (obj_id sample_object (new_collection (Some 0) []) raw_without_id)"
    by (simp add: falsy_id_def raw_without_id_def)
  have l2: "limit (new_collection (Some 2) ([] :: sample_entity list)) \<noteq> Some 0
     \<and> obj_id sample_object (new_collection (Some 2) []) raw_without_id = None"
    by (simp add: new_collection_def raw_without_id_def)
  have "add sample_object raw_without_id (ExtraIterable []) False (new_collection (Some 0) [])
     = (Inr (length (heap (new_collection (Some 0) ([] :: sample_entity list)))),
        (new_collection (Some 0) [])\<lparr>heap := heap (new_collection (Some 0) []) @
           [construct sample_object \<lparr>raw_id = None, raw_data = ''anonymous''\<rparr> []]\<rparr>)"
    using z l0 by (simp add: raw_without_id_def)
  then have "add sample_object raw_without_id (ExtraIterable []) False (new_collection (Some 0) [])
     = (Inr 0, \<lparr>limit = Some 0, entries = [],
                heap = [\<lparr>ent_id = None, ent_data = ''anonymous'', ent_args = []\<rparr>]\<rparr>)"
    by (simp add: new_collection_def sample_object_def)
  moreover from z l0 f have "update sample_object raw_without_id (ExtraIterable []) False (new_collection (Some 0) [])
     = (Inl MissingObjectId, new_collection (Some 0) [])" by blast
  moreover from z have "entries (run sample_object three_adds (new_collection (Some 0) [])) = []"
    by blast
  moreover from n l2 have "add sample_object raw_without_id (ExtraIterable []) False (new_collection (Some 2) [])
     = (Inl MissingObjectId, new_collection (Some 2) [])" by blast
  ultimately show ?thesis by blast
qed

section \<open>Properties of the position reorderer\<close>

lemma find_unique:
  "a \<in> set xs \<Longrightarrow> P a \<Longrightarrow> (\<forall>c \<in> set xs. P c \<longrightarrow> c = a) \<Longrightarrow> find P xs = Some a"
proof (induction xs)
  case Nil
  then show ?case by simp
next
  case (Cons x xs)
  show ?case
  proof (cases "P x")
    case True
    with Cons.prems(3) have "x = a" by (metis list.set_intros(1))
    with True show ?thesis by simp
  next
    case False
    with Cons.prems(1,2) have a: "a \<in> set xs" by auto
    from Cons.prems(3) have u: "\<forall>c \<in> set xs. P c \<longrightarrow> c = a"
      by (metis list.set_intros(2))
    from Cons.IH[OF a Cons.prems(2) u] False show ?thesis by simp
  qed
qed

lemma find_Some_props: "find P xs = Some a \<Longrightarrow> P a \<and> a \<in> set xs"
  by (induction xs) (auto split: if_splits)

lemma map_enum_snd: "map (\<lambda>(index, c). h c) (List.enumerate n xs) = map h xs"
proof -
  have "map (\<lambda>(index, c). h c) (List.enumerate n xs) = map (h \<circ> snd) (List.enumerate n xs)"
    by (rule map_cong) auto
  also have "\<dots> = map h (map snd (List.enumerate n xs))"
    by (simp only: map_map)
  finally show ?thesis by (simp only: map_snd_enumerate)
qed

lemma map_enum_fst: "map (\<lambda>(index, c). k index) (List.enumerate n xs) = map k [n..<n + length xs]"
proof -
  have "map (\<lambda>(index, c). k index) (List.enumerate n xs) = map (k \<circ> fst) (List.enumerate n xs)"
    by (rule map_cong) auto
  also have "\<dots> = map k (map fst (List.enumerate n xs))"
    by (simp only: map_map)
  finally show ?thesis by (simp only: map_fst_enumerate)
qed

lemma editChannelPosition_found:
  assumes "channelGuildMap cl channelID = Some gid" "guilds cl gid = Some g"
    "find (\<lambda>c. cid c = channelID) (channels g) = Some chn" "cposition chn \<noteq> pos"
  shows "editChannelPosition cl channelID pos opts =
    Inr (Some (PatchGuildChannels gid
      (map (\<lambda>(index, c). \<lparr>patch_id = cid c, position = double_of_int (int index + min pos (cposition chn)),
              lock_permissions = lockPermissions opts, parent_id = parentID opts\<rparr>)
        (List.enumerate 0
          (if cposition chn < pos then sort_key cposition (channel_siblings chn pos (channels g)) @ [chn]
           else chn # sort_key cposition (channel_siblings chn pos (channels g)))))))"
proof -
  have c: "cid chn = channelID" using find_Some_props[OF assms(3)] by simp
  show ?thesis
    using assms c by (simp add: editChannelPosition_def channel_siblings_def Let_def)
qed

lemma editRolePosition_found:
  assumes "guildID \<noteq> roleID" "guilds cl guildID = Some g"
    "find (\<lambda>r. rid r = roleID) (roles g) = Some rl" "rposition rl \<noteq> pos"
  shows "editRolePosition cl guildID roleID pos =
    Inr (Some (PatchGuildRoles guildID
      (map (\<lambda>(index, r). \<lparr>role_patch_id = rid r,
              role_patch_position = double_of_int (int index + min pos (rposition rl))\<rparr>)
        (List.enumerate 0
          (if rposition rl < pos then sort_key rposition (role_siblings rl pos (roles g)) @ [rl]
           else rl # sort_key rposition (role_siblings rl pos (roles g)))))))"
proof -
  have c: "rid rl = roleID" using find_Some_props[OF assms(3)] by simp
  show ?thesis
    using assms c by (simp add: editRolePosition_def role_siblings_def Let_def)
qed

text \<open>Sums that stay among the safe integers are exact.\<close>

lemma issued_positions_exact:
  assumes "safe_integer mn" "mn + int n \<le> 9007199254740991"
  shows "map (\<lambda>i. double_of_int (int i + mn)) [0..<Suc n] = map (\<lambda>i. mn + int i) [0..<Suc n]"
proof (rule map_cong[OF refl])
  fix i assume "i \<in> set [0..<Suc n]"
  then have "int i \<le> int n" by auto
  with assms have "\<bar>int i + mn\<bar> < 9007199254740992"
    by (simp add: safe_integer_def abs_less_iff)
  then show "double_of_int (int i + mn) = mn + int i"
    by (simp add: double_of_int_safe add.commute)
qed

lemma safe_integer_min: "safe_integer a \<Longrightarrow> safe_integer b \<Longrightarrow> safe_integer (min a b)"
  by (simp add: min_def)

lemma channel_patch_general:
  assumes "channelGuildMap cl channelID = Some gid" "guilds cl gid = Some g"
    "find (\<lambda>c. cid c = channelID) (channels g) = Some chn" "cposition chn \<noteq> pos"
    and safe: "safe_integer pos" "\<forall>c \<in> set (channels g). safe_integer (cposition c)"
      "min pos (cposition chn) + int (length (channel_siblings chn pos (channels g))) \<le> 9007199254740991"
  shows "\<exists>sibs patch.
      editChannelPosition cl channelID pos opts = Inr (Some (PatchGuildChannels gid patch))
    \<and> sorted (map cposition sibs)
    \<and> (\<forall>v. filter (\<lambda>c. cposition c = v) sibs
           = filter (\<lambda>c. cposition c = v) (channel_siblings chn pos (channels g)))
    \<and> map patch_id patch = map cid (if cposition chn < pos then sibs @ [chn] else chn # sibs)
    \<and> map position patch = map (\<lambda>i. min pos (cposition chn) + int i) [0..<Suc (length sibs)]"
proof -
  let ?mn = "min pos (cposition chn)"
  let ?sibs = "sort_key cposition (channel_siblings chn pos (channels g))"
  let ?moved = "if cposition chn < pos then ?sibs @ [chn] else chn # ?sibs"
  let ?patch = "map (\<lambda>(index, c). \<lparr>patch_id = cid c, position = double_of_int (int index + ?mn),
        lock_permissions = lockPermissions opts, parent_id = parentID opts\<rparr>) (List.enumerate 0 ?moved)"
  have "chn \<in> set (channels g)" using find_Some_props[OF assms(3)] by simp
  with safe have smn: "safe_integer ?mn" by (intro safe_integer_min) simp_all
  have len: "length ?moved = Suc (length ?sibs)" by simp
  have "editChannelPosition cl channelID pos opts = Inr (Some (PatchGuildChannels gid ?patch))"
    by (rule editChannelPosition_found[OF assms(1-4)])
  moreover have "sorted (map cposition ?sibs)" by simp
  moreover have "filter (\<lambda>c. cposition c = v) ?sibs
           = filter (\<lambda>c. cposition c = v) (channel_siblings chn pos (channels g))" for v
    by (rule sort_key_stable)
  moreover have "map patch_id ?patch = map cid ?moved"
    by (simp add: case_prod_unfold comp_def) (simp add: map_enum_snd[unfolded case_prod_unfold])
  moreover have "map position ?patch = map (\<lambda>i. ?mn + int i) [0..<Suc (length ?sibs)]"
  proof -
    have "map position ?patch = map (\<lambda>(index, c). double_of_int (int index + ?mn)) (List.enumerate 0 ?moved)"
      by (simp add: case_prod_unfold comp_def)
    also have "\<dots> = map (\<lambda>i. double_of_int (int i + ?mn)) [0..<Suc (length ?sibs)]"
      using map_enum_fst[of "\<lambda>i. double_of_int (int i + ?mn)" 0 ?moved] len by simp
    also have "\<dots> = map (\<lambda>i. ?mn + int i) [0..<Suc (length ?sibs)]"
      using safe(3) by (intro issued_positions_exact[OF smn]) simp
    finally show ?thesis .
  qed
  ultimately show ?thesis by blast
qed

lemma role_patch_general:
  assumes "guildID \<noteq> roleID" "guilds cl guildID = Some g"
    "find (\<lambda>r. rid r = roleID) (roles g) = Some rl" "rposition rl \<noteq> pos"
    and safe: "safe_integer pos" "\<forall>r \<in> set (roles g). safe_integer (rposition r)"
      "min pos (rposition rl) + int (length (role_siblings rl pos (roles g))) \<le> 9007199254740991"
  shows "\<exists>sibs patch.
      editRolePosition cl guildID roleID pos = Inr (Some (PatchGuildRoles guildID patch))
    \<and> sorted (map rposition sibs)
    \<and> (\<forall>v. filter (\<lambda>r. rposition r = v) sibs
           = filter (\<lambda>r. rposition r = v) (role_siblings rl pos (roles g)))
    \<and> map role_patch_id patch = map rid (if rposition rl < pos then sibs @ [rl] else rl # sibs)
    \<and> map role_patch_position patch = map (\<lambda>i. min pos (rposition rl) + int i) [0..<Suc (length sibs)]"
proof -
  let ?mn = "min pos (rposition rl)"
  let ?sibs = "sort_key rposition (role_siblings rl pos (roles g))"
  let ?moved = "if rposition rl < pos then ?sibs @ [rl] else rl # ?sibs"
  let ?patch = "map (\<lambda>(index, r). \<lparr>role_patch_id = rid r,
        role_patch_position = double_of_int (int index + ?mn)\<rparr>) (List.enumerate 0 ?moved)"
  have "rl \<in> set (roles g)" using find_Some_props[OF assms(3)] by simp
  with safe have smn: "safe_integer ?mn" by (intro safe_integer_min) simp_all
  have len: "length ?moved = Suc (length ?sibs)" by simp
  have "editRolePosition cl guildID roleID pos = Inr (Some (PatchGuildRoles guildID ?patch))"
    by (rule editRolePosition_found[OF assms(1-4)])
  moreover have "sorted (map rposition ?sibs)" by simp
  moreover have "filter (\<lambda>r. rposition r = v) ?sibs
           = filter (\<lambda>r. rposition r = v) (role_siblings rl pos (roles g))" for v
    by (rule sort_key_stable)
  moreover have "map role_patch_id ?patch = map rid ?moved"
    by (simp add: case_prod_unfold comp_def) (simp add: map_enum_snd[unfolded case_prod_unfold])
  moreover have "map role_patch_position ?patch = map (\<lambda>i. ?mn + int i) [0..<Suc (length ?sibs)]"
  proof -
    have "map role_patch_position ?patch
        = map (\<lambda>(index, c). double_of_int (int index + ?mn)) (List.enumerate 0 ?moved)"
      by (simp add: case_prod_unfold comp_def)
    also have "\<dots> = map (\<lambda>i. double_of_int (int i + ?mn)) [0..<Suc (length ?sibs)]"
      using map_enum_fst[of "\<lambda>i. double_of_int (int i + ?mn)" 0 ?moved] len by simp
    also have "\<dots> = map (\<lambda>i. ?mn + int i) [0..<Suc (length ?sibs)]"
      using safe(3) by (intro issued_positions_exact[OF smn]) simp
    finally show ?thesis .
  qed
  ultimately show ?thesis by blast
qed

lemma ten_siblings_list:
  "ten_siblings ids t =
     [\<lparr>cid = ids ! 0, ctype = t, cposition = 0\<rparr>, \<lparr>cid = ids ! 1, ctype = t, cposition = 1\<rparr>,
      \<lparr>cid = ids ! 2, ctype = t, cposition = 2\<rparr>, \<lparr>cid = ids ! 3, ctype = t, cposition = 3\<rparr>,
      \<lparr>cid = ids ! 4, ctype = t, cposition = 4\<rparr>, \<lparr>cid = ids ! 5, ctype = t, cposition = 5\<rparr>,
      \<lparr>cid = ids ! 6, ctype = t, cposition = 6\<rparr>, \<lparr>cid = ids ! 7, ctype = t, cposition = 7\<rparr>,
      \<lparr>cid = ids ! 8, ctype = t, cposition = 8\<rparr>, \<lparr>cid = ids ! 9, ctype = t, cposition = 9\<rparr>]"
proof -
  have "[0..<10] = [0, 1, 2, 3, 4, 5, 6, 7, 8, 9::nat]"
    by (simp add: upt_rec)
  then show ?thesis by (simp add: ten_siblings_def)
qed

lemma ten_siblings_move:
  assumes len: "length ids = 10" and dist: "distinct ids"
    and perm: "mset (channels g) = mset (ten_siblings ids t)"
    and cg: "channelGuildMap cl (ids ! 3) = Some gid" and gg: "guilds cl gid = Some g"
  shows "editChannelPosition cl (ids ! 3) 7 opts =
    Inr (Some (PatchGuildChannels gid
      [\<lparr>patch_id = ids ! 4, position = 3, lock_permissions = lockPermissions opts, parent_id = parentID opts\<rparr>,
       \<lparr>patch_id = ids ! 5, position = 4, lock_permissions = lockPermissions opts, parent_id = parentID opts\<rparr>,
       \<lparr>patch_id = ids ! 6, position = 5, lock_permissions = lockPermissions opts, parent_id = parentID opts\<rparr>,
       \<lparr>patch_id = ids ! 7, position = 6, lock_permissions = lockPermissions opts, parent_id = parentID opts\<rparr>,
       \<lparr>patch_id = ids ! 3, position = 7, lock_permissions = lockPermissions opts, parent_id = parentID opts\<rparr>]))"
proof -
  let ?c = "\<lambda>i. \<lparr>cid = ids ! i, ctype = t, cposition = int i\<rparr>"
  let ?x = "\<lparr>cid = ids ! 3, ctype = t, cposition = 3\<rparr>"
  have ne: "ids ! i \<noteq> ids ! j" if "i < 10" "j < 10" "i \<noteq> j" for i j
    using that len dist by (simp add: nth_eq_iff_index_eq)
  note nes = ne[of 0 3] ne[of 1 3] ne[of 2 3] ne[of 4 3] ne[of 5 3] ne[of 6 3] ne[of 7 3]
    ne[of 8 3] ne[of 9 3]
  have sets: "set (channels g) = set (ten_siblings ids t)"
    using perm by (rule mset_eq_setD)
  have "find (\<lambda>c. cid c = ids ! 3) (channels g) = Some ?x"
  proof (rule find_unique)
    show "?x \<in> set (channels g)" by (simp add: sets ten_siblings_list)
    show "cid ?x = ids ! 3" by simp
    show "\<forall>c \<in> set (channels g). cid c = ids ! 3 \<longrightarrow> c = ?x"
      using nes by (simp add: sets ten_siblings_list)
  qed
  note found = editChannelPosition_found[OF cg gg this, of 7 opts]
  let ?sibs = "[\<lparr>cid = ids ! 4, ctype = t, cposition = 4\<rparr>, \<lparr>cid = ids ! 5, ctype = t, cposition = 5\<rparr>,
      \<lparr>cid = ids ! 6, ctype = t, cposition = 6\<rparr>, \<lparr>cid = ids ! 7, ctype = t, cposition = 7\<rparr>]"
  have fb: "channel_siblings ?x 7 (ten_siblings ids t) = ?sibs"
    using nes by (simp add: channel_siblings_def ten_siblings_list)
  have "mset (channel_siblings ?x 7 (channels g)) = mset (channel_siblings ?x 7 (ten_siblings ids t))"
    using perm by (simp add: channel_siblings_def)
  then have ms: "mset (channel_siblings ?x 7 (channels g)) = mset ?sibs"
    by (simp only: fb)
  then have "set (channel_siblings ?x 7 (channels g)) = set ?sibs"
    by (rule mset_eq_setD)
  then have inj: "inj_on cposition (set (channel_siblings ?x 7 (channels g)))"
    by (simp add: inj_on_def)
  have "sort_key cposition (channel_siblings ?x 7 (channels g)) = ?sibs"
    using ms inj by (rule sort_key_inj_key_eq) simp
  with found show ?thesis by (simp add: enumerate_simps double_of_int_safe)
qed

text \<open>
  C3. Positions being safe integers (the requested one, the cached ones and the ones to
  be issued), whenever a move is submitted, the patch lists the range-filtered siblings sorted
  by ascending position, siblings of equal position in the order the cache holds them,
  with the moved entity appended when it moves to a higher position and prepended
  otherwise, and the positions of the patch count up from \<open>min(current, new)\<close>; this
  holds for channels (siblings of the same type) and for roles. In particular, for ten
  channels of one type at positions 0 to 9, cached in any order, moving the channel at
  position 3 to position 7 submits exactly five entries: the channels at positions 4, 5,
  6 and 7 move to 3, 4, 5 and 6, the moved channel gets 7, and the channels at positions
  0 to 2 and 8 to 9 are not in the patch.
\<close>

theorem reorder_patch:
  "(channelGuildMap cl channelID = Some gid \<and> guilds cl gid = Some g
      \<and> find (\<lambda>c. cid c = channelID) (channels g) = Some chn \<and> cposition chn \<noteq> pos
      \<and> safe_integer pos \<and> (\<forall>c \<in> set (channels g). safe_integer (cposition c))
      \<and> min pos (cposition chn) + int (length (channel_siblings chn pos (channels g)))
            \<le> 9007199254740991 \<longrightarrow>
      (\<exists>sibs patch.
          editChannelPosition cl channelID pos opts = Inr (Some (PatchGuildChannels gid patch))
        \<and> sorted (map cposition sibs)
        \<and> (\<forall>v. filter (\<lambda>c. cposition c = v) sibs
               = filter (\<lambda>c. cposition c = v) (channel_siblings chn pos (channels g)))
        \<and> map patch_id patch = map cid (if cposition chn < pos then sibs @ [chn] else chn # sibs)
        \<and> map position patch = map (\<lambda>i. min pos (cposition chn) + int i) [0..<Suc (length sibs)]))
   \<and> (guildID \<noteq> roleID \<and> guilds cl guildID = Some g
      \<and> find (\<lambda>r. rid r = roleID) (roles g) = Some rl \<and> rposition rl \<noteq> pos
      \<and> safe_integer pos \<and> (\<forall>r \<in> set (roles g). safe_integer (rposition r))
      \<and> min pos (rposition rl) + int (length (role_siblings rl pos (roles g)))
            \<le> 9007199254740991 \<longrightarrow>
      (\<exists>sibs patch.
          editRolePosition cl guildID roleID pos = Inr (Some (PatchGuildRoles guildID patch))
        \<and> sorted (map rposition sibs)
        \<and> (\<forall>v. filter (\<lambda>r. rposition r = v) sibs
               = filter (\<lambda>r. rposition r = v) (role_siblings rl pos (roles g)))
        \<and> map role_patch_id patch = map rid (if rposition rl < pos then sibs @ [rl] else rl # sibs)
        \<and> map role_patch_position patch = map (\<lambda>i. min pos (rposition rl) + int i) [0..<Suc (length sibs)]))
   \<and> (length ids = 10 \<and> distinct ids \<and> mset (channels g) = mset (ten_siblings ids t)
      \<and> channelGuildMap cl (ids ! 3) = Some gid \<and> guilds cl gid = Some g \<longrightarrow>
      editChannelPosition cl (ids ! 3) 7 opts =
        Inr (Some (PatchGuildChannels gid
          [\<lparr>patch_id = ids ! 4, position = 3, lock_permissions = lockPermissions opts, parent_id = parentID opts\<rparr>,
           \<lparr>patch_id = ids ! 5, position = 4, lock_permissions = lockPermissions opts, parent_id = parentID opts\<rparr>,
           \<lparr>patch_id = ids ! 6, position = 5, lock_permissions = lockPermissions opts, parent_id = parentID opts\<rparr>,
           \<lparr>patch_id = ids ! 7, position = 6, lock_permissions = lockPermissions opts, parent_id = parentID opts\<rparr>,
           \<lparr>patch_id = ids ! 3, position = 7, lock_permissions = lockPermissions opts, parent_id = parentID opts\<rparr>])))"
  using channel_patch_general[of cl channelID gid g chn pos opts]
    role_patch_general[of guildID roleID cl g rl pos]
    ten_siblings_move[of ids g t cl gid opts]
  by blast

theorem reorder_patch_witness:
  "editChannelPosition sample_client ''c3'' 7 no_options =
     Inr (Some (PatchGuildChannels ''g''
       [\<lparr>patch_id = ''c4'', position = 3, lock_permissions = None, parent_id = None\<rparr>,
        \<lparr>patch_id = ''c5'', position = 4, lock_permissions = None, parent_id = None\<rparr>,
        \<lparr>patch_id = ''c6'', position = 5, lock_permissions = None, parent_id = None\<rparr>,
        \<lparr>patch_id = ''c7'', position = 6, lock_permissions = None, parent_id = None\<rparr>,
        \<lparr>patch_id = ''c3'', position = 7, lock_permissions = None, parent_id = None\<rparr>]))
   \<and> (\<exists>sibs patch.
          editRolePosition sample_client ''g'' ''r1'' 2 = Inr (Some (PatchGuildRoles ''g'' patch))
        \<and> sorted (map rposition sibs)
        \<and> map role_patch_id patch = map rid (sibs @ [\<lparr>rid = ''r1'', rposition = 1\<rparr>])
        \<and> map role_patch_position patch = map (\<lambda>i. 1 + int i) [0..<Suc (length sibs)])
   \<and> (\<exists>sibs patch.
          editChannelPosition sample_client ''c7'' 3 no_options = Inr (Some (PatchGuildChannels ''g'' patch))
        \<and> sorted (map cposition sibs)
        \<and> map patch_id patch = map cid (\<lparr>cid = ''c7'', ctype = 0, cposition = 7\<rparr> # sibs)
        \<and> map position patch = map (\<lambda>i. 3 + int i) [0..<Suc (length sibs)])"
proof -
  let ?ids = "[''c0'', ''c1'', ''c2'', ''c3'', ''c4'', ''c5'', ''c6'', ''c7'', ''c8'', ''c9'']"
  have h3: "length ?ids = 10 \<and> distinct ?ids
      \<and> mset (channels sample_guild) = mset (ten_siblings ?ids 0)
      \<and> channelGuildMap sample_client (?ids ! 3) = Some ''g''
      \<and> guilds sample_client ''g'' = Some sample_guild"
    by (simp add: sample_guild_def sample_client_def ten_siblings_list)
  have h2: "''g'' \<noteq> ''r1'' \<and> guilds sample_client ''g'' = Some sample_guild
      \<and> find (\<lambda>r. rid r = ''r1'') (roles sample_guild) = Some \<lparr>rid = ''r1'', rposition = 1\<rparr>
      \<and> rposition \<lparr>rid = ''r1'', rposition = 1\<rparr> \<noteq> 2
      \<and> safe_integer 2 \<and> (\<forall>r \<in> set (roles sample_guild). safe_integer (rposition r))
      \<and> min 2 (rposition \<lparr>rid = ''r1'', rposition = 1\<rparr>)
            + int (length (role_siblings \<lparr>rid = ''r1'', rposition = 1\<rparr> 2 (roles sample_guild)))
            \<le> 9007199254740991"
    by (simp add: sample_guild_def sample_client_def safe_integer_def role_siblings_def)
  have h1: "channelGuildMap sample_client ''c7'' = Some ''g'' \<and> guilds sample_client ''g'' = Some sample_guild
      \<and> find (\<lambda>c. cid c = ''c7'') (channels sample_guild) = Some \<lparr>cid = ''c7'', ctype = 0, cposition = 7\<rparr>
      \<and> cposition \<lparr>cid = ''c7'', ctype = 0, cposition = 7\<rparr> \<noteq> 3
      \<and> safe_integer 3 \<and> (\<forall>c \<in> set (channels sample_guild). safe_integer (cposition c))
      \<and> min 3 (cposition \<lparr>cid = ''c7'', ctype = 0, cposition = 7\<rparr>)
            + int (length (channel_siblings \<lparr>cid = ''c7'', ctype = 0, cposition = 7\<rparr> 3
                (channels sample_guild)))
            \<le> 9007199254740991"
    by (simp add: sample_guild_def sample_client_def safe_integer_def channel_siblings_def)
  note t = reorder_patch[of sample_client "''c7''" "''g''" sample_guild
      "\<lparr>cid = ''c7'', ctype = 0, cposition = 7\<rparr>" 3 no_options "''g''" "''r1''"
      "\<lparr>rid = ''r1'', rposition = 1\<rparr>" ?ids 0]
  note t2 = reorder_patch[of sample_client "''c7''" "''g''" sample_guild
      "\<lparr>cid = ''c7'', ctype = 0, cposition = 7\<rparr>" 2 no_options "''g''" "''r1''"
      "\<lparr>rid = ''r1'', rposition = 1\<rparr>" ?ids 0]
  have a: "editChannelPosition sample_client (?ids ! 3) 7 no_options =
     Inr (Some (PatchGuildChannels ''g''
       [\<lparr>patch_id = ?ids ! 4, position = 3, lock_permissions = lockPermissions no_options, parent_id = parentID no_options\<rparr>,
        \<lparr>patch_id = ?ids ! 5, position = 4, lock_permissions = lockPermissions no_options, parent_id = parentID no_options\<rparr>,
        \<lparr>patch_id = ?ids ! 6, position = 5, lock_permissions = lockPermissions no_options, parent_id = parentID no_options\<rparr>,
        \<lparr>patch_id = ?ids ! 7, position = 6, lock_permissions = lockPermissions no_options, parent_id = parentID no_options\<rparr>,
        \<lparr>patch_id = ?ids ! 3, position = 7, lock_permissions = lockPermissions no_options, parent_id = parentID no_options\<rparr>]))"
    using t h3 by blast
  have b: "\<exists>sibs patch.
          editRolePosition sample_client ''g'' ''r1'' 2 = Inr (Some (PatchGuildRoles ''g'' patch))
        \<and> sorted (map rposition sibs)
        \<and> map role_patch_id patch = map rid (sibs @ [\<lparr>rid = ''r1'', rposition = 1\<rparr>])
        \<and> map role_patch_position patch = map (\<lambda>i. 1 + int i) [0..<Suc (length sibs)]"
  proof -
    from t2 h2 obtain sibs patch where
      "editRolePosition sample_client ''g'' ''r1'' 2 = Inr (Some (PatchGuildRoles ''g'' patch))"
      "sorted (map rposition sibs)"
      "map role_patch_id patch = map rid (if rposition \<lparr>rid = ''r1'', rposition = 1\<rparr> < 2
          then sibs @ [\<lparr>rid = ''r1'', rposition = 1\<rparr>] else \<lparr>rid = ''r1'', rposition = 1\<rparr> # sibs)"
      "map role_patch_position patch
         = map (\<lambda>i. min 2 (rposition \<lparr>rid = ''r1'', rposition = 1\<rparr>) + int i) [0..<Suc (length sibs)]"
      by blast
    then show ?thesis by (intro exI[of _ sibs] exI[of _ patch]) simp
  qed
  have c: "\<exists>sibs patch.
          editChannelPosition sample_client ''c7'' 3 no_options = Inr (Some (PatchGuildChannels ''g'' patch))
        \<and> sorted (map cposition sibs)
        \<and> map patch_id patch = map cid (\<lparr>cid = ''c7'', ctype = 0, cposition = 7\<rparr> # sibs)
        \<and> map position patch = map (\<lambda>i. 3 + int i) [0..<Suc (length sibs)]"
  proof -
    from t h1 obtain sibs patch where
      "editChannelPosition sample_client ''c7'' 3 no_options = Inr (Some (PatchGuildChannels ''g'' patch))"
      "sorted (map cposition sibs)"
      "map patch_id patch = map cid (if cposition \<lparr>cid = ''c7'', ctype = 0, cposition = 7\<rparr> < 3
          then sibs @ [\<lparr>cid = ''c7'', ctype = 0, cposition = 7\<rparr>]
          else \<lparr>cid = ''c7'', ctype = 0, cposition = 7\<rparr> # sibs)"
      "map position patch
         = map (\<lambda>i. min 3 (cposition \<lparr>cid = ''c7'', ctype = 0, cposition = 7\<rparr>) + int i) [0..<Suc (length sibs)]"
      by blast
    then show ?thesis by (intro exI[of _ sibs] exI[of _ patch]) simp
  qed
  from a have "editChannelPosition sample_client ''c3'' 7 no_options =
     Inr (Some (PatchGuildChannels ''g''
       [\<lparr>patch_id = ''c4'', position = 3, lock_permissions = None, parent_id = None\<rparr>,
        \<lparr>patch_id = ''c5'', position = 4, lock_permissions = None, parent_id = None\<rparr>,
        \<lparr>patch_id = ''c6'', position = 5, lock_permissions = None, parent_id = None\<rparr>,
        \<lparr>patch_id = ''c7'', position = 6, lock_permissions = None, parent_id = None\<rparr>,
        \<lparr>patch_id = ''c3'', position = 7, lock_permissions = None, parent_id = None\<rparr>]))"
    by (simp add: no_options_def)
  with b c show ?thesis by blast
qed

text \<open>
  C10. \<open>editRolePosition\<close> with the guild's own identifier as the role (the default
  role) is rejected with "Cannot move default role", whatever the cache holds and
  whatever position is asked for; no request is submitted.
\<close>

theorem default_role_cannot_move:
  "editRolePosition cl guildID guildID pos = Inl CannotMoveDefaultRole"
  by (simp add: editRolePosition_def)

section \<open>Properties of the allowed-mentions normalizer\<close>

text \<open>
  C9. For \<open>{roles: [1,2,3], everyone: true}\<close> the normalizer returns
  \<open>parse: ["everyone"]\<close> with \<open>roles: [1,2,3]\<close>; for \<open>{roles: true}\<close> it returns
  \<open>parse: ["roles"]\<close> and no explicit roles list; given no input it returns the
  configured default; it fails when an explicit roles or users list has more than 100
  entries; and for every other input it returns an object with a \<open>parse\<close> list (possibly
  empty) naming the blanket-allowed categories, with the explicit lists it was given.
\<close>

theorem allowed_mentions_normalizer:
  "formatAllowedMentions d
       (Some \<lparr>everyone = True, allowed_roles = Explicit [1, 2, 3 :: nat], allowed_users = Unset,
              repliedUser = None\<rparr>)
     = Inr (Canonical \<lparr>parse = [''everyone''], result_roles = Some [1, 2, 3], result_users = None,
                       replied_user = None\<rparr>)
   \<and> formatAllowedMentions d
       (Some \<lparr>everyone = False, allowed_roles = (Blanket :: nat mention_setting), allowed_users = Unset,
              repliedUser = None\<rparr>)
     = Inr (Canonical \<lparr>parse = [''roles''], result_roles = None, result_users = None,
                       replied_user = None\<rparr>)
   \<and> formatAllowedMentions d (None :: 'i allowed_mentions option) = Inr (ConfiguredDefault d)
   \<and> (too_long a \<longrightarrow>
         formatAllowedMentions d (Some a) = Inl TooManyRoleMentions
       \<or> formatAllowedMentions d (Some a) = Inl TooManyUserMentions)
   \<and> (\<not> too_long a \<longrightarrow>
        (\<exists>f. formatAllowedMentions d (Some a) = Inr (Canonical f)
           \<and> parse f = (if everyone a then [''everyone''] else [])
                      @ (if allowed_roles a = Blanket then [''roles''] else [])
                      @ (if allowed_users a = Blanket then [''users''] else [])
           \<and> result_roles f = (case allowed_roles a of Explicit rs \<Rightarrow> Some rs | _ \<Rightarrow> None)
           \<and> result_users f = (case allowed_users a of Explicit us \<Rightarrow> Some us | _ \<Rightarrow> None)
           \<and> replied_user f = repliedUser a))"
proof -
  have "formatAllowedMentions d (Some a) = Inl TooManyRoleMentions
       \<or> formatAllowedMentions d (Some a) = Inl TooManyUserMentions" if "too_long a"
    using that
    by (cases "allowed_roles a"; cases "allowed_users a")
       (auto simp: formatAllowedMentions_def too_long_def Let_def)
  moreover have "\<exists>f. formatAllowedMentions d (Some a) = Inr (Canonical f)
           \<and> parse f = (if everyone a then [''everyone''] else [])
                      @ (if allowed_roles a = Blanket then [''roles''] else [])
                      @ (if allowed_users a = Blanket then [''users''] else [])
           \<and> result_roles f = (case allowed_roles a of Explicit rs \<Rightarrow> Some rs | _ \<Rightarrow> None)
           \<and> result_users f = (case allowed_users a of Explicit us \<Rightarrow> Some us | _ \<Rightarrow> None)
           \<and> replied_user f = repliedUser a" if "\<not> too_long a"
    using that
    by (cases "allowed_roles a"; cases "allowed_users a"; cases "repliedUser a")
       (auto simp: formatAllowedMentions_def too_long_def Let_def)
  ultimately show ?thesis
    by (simp add: formatAllowedMentions_def)
qed

theorem allowed_mentions_normalizer_witness:
  "formatAllowedMentions ()
       (Some \<lparr>everyone = False, allowed_roles = Explicit (replicate 101 ''r''), allowed_users = Unset,
              repliedUser = None\<rparr>) = Inl TooManyRoleMentions
   \<and> formatAllowedMentions ()
       (Some \<lparr>everyone = False, allowed_roles = Explicit [''r''], allowed_users = Explicit (replicate 101 ''u''),
              repliedUser = None\<rparr>) = Inl TooManyUserMentions
   \<and> (\<exists>f. formatAllowedMentions ()
         (Some \<lparr>everyone = True, allowed_roles = Explicit [''r''], allowed_users = Blanket,
                repliedUser = Some False\<rparr>) = Inr (Canonical f)
        \<and> parse f = [''everyone'', ''users''] \<and> result_roles f = Some [''r'']
        \<and> result_users f = None \<and> replied_user f = Some False)"
proof -
  let ?a = "\<lparr>everyone = False, allowed_roles = Explicit (replicate 101 ''r''), allowed_users = Unset,
              repliedUser = None\<rparr>"
  let ?b = "\<lparr>everyone = False, allowed_roles = Explicit [''r''], allowed_users = Explicit (replicate 101 ''u''),
              repliedUser = None\<rparr>"
  let ?c = "\<lparr>everyone = True, allowed_roles = Explicit [''r''], allowed_users = Blanket,
                repliedUser = Some False\<rparr>"
  have ta: "too_long ?a" and tb: "too_long ?b" and tc: "\<not> too_long ?c"
    by (simp_all add: too_long_def)
  have na: "formatAllowedMentions () (Some ?a) \<noteq> Inl TooManyUserMentions"
    and nb: "formatAllowedMentions () (Some ?b) \<noteq> Inl TooManyRoleMentions"
    by (simp_all add: formatAllowedMentions_def)
  from allowed_mentions_normalizer[of "()" ?a] ta na
  have 1: "formatAllowedMentions () (Some ?a) = Inl TooManyRoleMentions" by blast
  from allowed_mentions_normalizer[of "()" ?b] tb nb
  have 2: "formatAllowedMentions () (Some ?b) = Inl TooManyUserMentions" by blast
  from allowed_mentions_normalizer[of "()" ?c] tc
  obtain f where "formatAllowedMentions () (Some ?c) = Inr (Canonical f)"
    "parse f = (if everyone ?c then [''everyone''] else [])
                      @ (if allowed_roles ?c = Blanket then [''roles''] else [])
                      @ (if allowed_users ?c = Blanket then [''users''] else [])"
    "result_roles f = (case allowed_roles ?c of Explicit rs \<Rightarrow> Some rs | _ \<Rightarrow> None)"
    "result_users f = (case allowed_users ?c of Explicit us \<Rightarrow> Some us | _ \<Rightarrow> None)"
    "replied_user f = repliedUser ?c" by blast
  then have 3: "\<exists>f. formatAllowedMentions () (Some ?c) = Inr (Canonical f)
        \<and> parse f = [''everyone'', ''users''] \<and> result_roles f = Some [''r'']
        \<and> result_users f = None \<and> replied_user f = Some False"
    by (intro exI[of _ f]) simp
  from 1 2 3 show ?thesis by blast
qed

section \<open>Properties of bulk deletion and the purge pipeline\<close>

lemma int_div_less_iff:
  fixes a b c :: int
  assumes "0 < b"
  shows "a div b < c \<longleftrightarrow> a < c * b"
proof
  assume "a div b < c"
  then have "a div b + 1 \<le> c" by simp
  then have "(a div b + 1) * b \<le> c * b" using assms by (simp add: mult_right_mono)
  then have "(a div b) * b + b \<le> c * b" by (simp add: algebra_simps)
  moreover have "a mod b < b" using assms by simp
  moreover have "a = (a div b) * b + a mod b" by simp
  ultimately show "a < c * b" by linarith
next
  assume l: "a < c * b"
  show "a div b < c"
  proof (rule ccontr)
    assume "\<not> a div b < c"
    then have "c \<le> a div b" by simp
    then have "c * b \<le> (a div b) * b" using assms by (simp add: mult_right_mono)
    moreover have "0 \<le> a mod b" using assms by simp
    moreover have "a = (a div b) * b + a mod b" by simp
    ultimately show False using l by linarith
  qed
qed

lemma stale_iff: "snowflake_time m < now - 1209600000 \<longleftrightarrow> int m < oldestAllowedSnowflake now"
proof -
  have "int m div 4194304 < now - 1421280000000 \<longleftrightarrow> int m < (now - 1421280000000) * 4194304"
    by (rule int_div_less_iff) simp
  moreover have "snowflake_time m < now - 1209600000 \<longleftrightarrow> int m div 4194304 < now - 1421280000000"
    unfolding snowflake_time_def by linarith
  ultimately show ?thesis
    unfolding oldestAllowedSnowflake_def by blast
qed

lemma find_stale_None:
  "\<forall>m \<in> set ids. oldestAllowedSnowflake now \<le> int m \<Longrightarrow>
   find (\<lambda>messageID. double_of_int (int messageID) < double_of_int (oldestAllowedSnowflake now)) ids
     = None"
proof (induction ids)
  case Nil
  then show ?case by simp
next
  case (Cons m ids)
  then have "double_of_int (oldestAllowedSnowflake now) \<le> double_of_int (int m)"
    by (simp add: double_of_int_mono)
  with Cons show ?case by simp
qed

lemma deleteMessages_stale:
  assumes "2 \<le> length ids"
    "find (\<lambda>messageID. double_of_int (int messageID) < double_of_int (oldestAllowedSnowflake now)) ids
       = Some m"
  shows "deleteMessages T now ch ids reason = (Some (MessageTooOld m), [])"
  using assms by (subst deleteMessages.simps) auto

lemma deleteMessages_single:
  "deleteMessages T now ch [m] reason =
     (if accepts T (DeleteMessage ch m reason) then None else Some TransportError,
      [DeleteMessage ch m reason])"
  by (subst deleteMessages.simps) (simp add: deleteMessage_def)

lemma deleteMessages_chunk:
  assumes "100 < length ids" "\<forall>m \<in> set ids. oldestAllowedSnowflake now \<le> int m"
    "accepts T (BulkDelete ch (take 100 ids) reason)"
  shows "deleteMessages T now ch ids reason =
     (fst (deleteMessages T now ch (drop 100 ids) reason),
      BulkDelete ch (take 100 ids) reason # snd (deleteMessages T now ch (drop 100 ids) reason))"
  using assms find_stale_None[OF assms(2)]
  by (subst deleteMessages.simps) (auto simp: case_prod_unfold)

lemma deleteMessages_last:
  assumes "2 \<le> length ids" "length ids \<le> 100" "\<forall>m \<in> set ids. oldestAllowedSnowflake now \<le> int m"
    "accepts T (BulkDelete ch ids reason)"
  shows "deleteMessages T now ch ids reason = (None, [BulkDelete ch ids reason])"
  using assms find_stale_None[OF assms(3)]
  by (subst deleteMessages.simps) auto

text \<open>
  C8 fails on the code. The identifiers reach \<open>deleteMessages\<close> as decimal strings and
  are compared with the cutoff as numbers, so each is first rounded to the nearest
  double. At the clock value \<open>1700000000000\<close> the cutoff is \<open>1169036410880000000\<close>; the
  identifier \<open>1169036410879999999\<close> embeds a time more than 14 days before that clock
  value, rounds up to the cutoff, is not found stale, and the bulk-delete request is
  submitted with it. An identifier far enough below the cutoff to round below it, such
  as \<open>1169036410879999871\<close>, is rejected with the error naming it and nothing is
  submitted; \<open>deleteMessages\<close> with exactly one identifier submits the single-message
  \<open>DELETE\<close> request and nothing else.
\<close>

theorem deleteMessages_misses_stale_identifier:
  "snowflake_time 1169036410879999999 < sample_now - 1209600000
   \<and> deleteMessages sample_transport sample_now ''c'' [1169036410879999999, 1173747453132800000] None
       = (None, [BulkDelete ''c'' [1169036410879999999, 1173747453132800000] None])
   \<and> deleteMessages sample_transport sample_now ''c'' [1169036410879999871, 1173747453132800000] None
       = (Some (MessageTooOld 1169036410879999871), [])
   \<and> deleteMessages sample_transport sample_now ''c'' [5] None = (None, [DeleteMessage ''c'' 5 None])"
proof -
  have cut: "oldestAllowedSnowflake sample_now = 1169036410880000000"
    by (simp add: oldestAllowedSnowflake_def sample_now_def)
  have d: "double_of_int 1169036410880000000 = 1169036410880000000"
    "double_of_int 1169036410879999999 = 1169036410880000000"
    "double_of_int 1169036410879999871 = 1169036410879999744"
    "double_of_int 1173747453132800000 = 1173747453132800000"
    by (simp_all add: double_of_int_def double_of_nat_def round_at_def double_exponent.simps Let_def)
  have "snowflake_time 1169036410879999999 < sample_now - 1209600000"
    by (simp add: snowflake_time_def sample_now_def)
  moreover have "deleteMessages sample_transport sample_now ''c''
      [1169036410879999999, 1173747453132800000] None
       = (None, [BulkDelete ''c'' [1169036410879999999, 1173747453132800000] None])"
    by (subst deleteMessages.simps) (simp add: cut d sample_transport_def)
  moreover have "deleteMessages sample_transport sample_now ''c''
      [1169036410879999871, 1173747453132800000] None
       = (Some (MessageTooOld 1169036410879999871), [])"
    by (subst deleteMessages.simps) (simp add: cut d)
  moreover have "deleteMessages sample_transport sample_now ''c'' [5] None
       = (None, [DeleteMessage ''c'' 5 None])"
    by (subst deleteMessages.simps) (simp add: deleteMessage_def sample_transport_def)
  ultimately show ?thesis by simp
qed

lemma del_scan_only:
  "del T now ch flt b a st = Some y \<Longrightarrow>
     (\<exists>gets. trace (snd y) = trace st @ gets \<and> list_all is_fetch gets)
   \<and> (\<forall>u. fst y = Inr u \<longrightarrow> done_flag (snd y))
   \<and> deleted (snd y) = deleted st"
proof (induction rule: del.raw_induct[rotated 1, consumes 1])
  case (1 del' T now ch flt b a st y)
  let ?g = "Request (GetMessages ch 100 b a)"
  let ?st1 = "st\<lparr>trace := trace st @ [?g]\<rparr>"
  show ?case
  proof (cases "fetch T ch b a")
    case (Inl e)
    with 1(2) have "y = (Inl e, ?st1)" by (simp add: Let_def)
    then show ?thesis by simp
  next
    case (Inr messages)
    show ?thesis
    proof (cases "remaining st \<noteq> - 1 \<and> remaining st \<le> 0")
      case True
      with 1(2) Inr have "y = (Inr (), ?st1\<lparr>done_flag := True\<rparr>)" by (simp add: Let_def)
      then show ?thesis by simp
    next
      case False
      obtain lim buf too_old where sp:
        "scan_page flt now messages (remaining st) (toDelete st) = (lim, buf, too_old)"
        by (cases "scan_page flt now messages (remaining st) (toDelete st)") auto
      let ?st2 = "?st1\<lparr>remaining := lim, toDelete := buf\<rparr>"
      show ?thesis
      proof (cases "too_old \<or> (lim \<noteq> - 1 \<and> lim \<le> 0) \<or> length messages < 100")
        case True
        with 1(2) Inr False sp have "y = (Inr (), ?st2\<lparr>done_flag := True\<rparr>)"
          by (auto simp: Let_def split: if_splits)
        then show ?thesis by simp
      next
        case nostop: False
        with 1(2) Inr False sp have
          "del' T now ch flt (if b \<noteq> None \<or> a = None then Some (mid (last messages)) else None)
              (if a \<noteq> None then Some (mid (hd messages)) else None) ?st2 = Some y"
          by (auto simp: Let_def split: if_splits)
        from 1(1)[OF this] obtain gets where
          g: "trace (snd y) = trace ?st2 @ gets" "list_all is_fetch gets"
          and d: "\<forall>u. fst y = Inr u \<longrightarrow> done_flag (snd y)" and c: "deleted (snd y) = deleted ?st2"
          by blast
        from g have "trace (snd y) = trace st @ (?g # gets) \<and> list_all is_fetch (?g # gets)"
          by simp
        then have "\<exists>gets. trace (snd y) = trace st @ gets \<and> list_all is_fetch gets" by blast
        with d c show ?thesis by simp
      qed
    qed
  qed
qed

lemma deleteMessages_only_deletes:
  "list_all is_delete (map Request (snd (deleteMessages T now ch ids reason)))"
proof (induction T now ch ids reason rule: deleteMessages.induct)
  case (1 T now channelID messageIDs reason)
  show ?case
    using 1
    by (subst deleteMessages.simps)
       (auto simp: deleteMessage_def split: option.splits prod.splits)
qed

lemma checkToDelete_done:
  assumes "done_flag st"
  shows "checkToDelete T now ch reason st =
     Some (case fst (deleteMessages T now ch (toDelete st) reason) of
             Some e \<Rightarrow> Inl e
           | None \<Rightarrow> Inr (deleted st + length (toDelete st)),
           st\<lparr>deleted := deleted st + length (toDelete st),
              trace := trace st @ map Request (snd (deleteMessages T now ch (toDelete st) reason))\<rparr>)"
  using assms
  by (subst checkToDelete.simps)
     (auto simp: Let_def split: prod.splits option.splits)

lemma scan_page_all:
  "\<forall>m \<in> set ms. now - 1209600000 \<le> timestamp m \<Longrightarrow>
   scan_page None now ms (- 1) buf = (- 1, buf @ map mid ms, False)"
  by (induction ms arbitrary: buf) auto

lemma del_full_page:
  assumes "fetch T ch b None = Inr page" "length page = 100"
    "\<forall>m \<in> set page. now - 1209600000 \<le> timestamp m" "remaining st = - 1"
    "del T now ch None (Some (mid (last page))) None
       (st\<lparr>trace := trace st @ [Request (GetMessages ch 100 b None)], remaining := - 1,
           toDelete := toDelete st @ map mid page\<rparr>) = res"
  shows "del T now ch None b None st = res"
  using assms by (subst del.simps) (simp add: scan_page_all Let_def)

lemma del_last_page:
  assumes "fetch T ch b None = Inr page" "length page < 100"
    "\<forall>m \<in> set page. now - 1209600000 \<le> timestamp m" "remaining st = - 1"
  shows "del T now ch None b None st =
     Some (Inr (), st\<lparr>trace := trace st @ [Request (GetMessages ch 100 b None)], remaining := - 1,
                      toDelete := toDelete st @ map mid page, done_flag := True\<rparr>)"
  using assms by (subst del.simps) (simp add: scan_page_all Let_def)

text \<open>In a history that is newest first, the messages older than the one at index \<open>n\<close>.\<close>

lemma filter_older:
  assumes "sorted_wrt (>) (map mid hist)" "n < length hist"
  shows "filter (\<lambda>m. mid m < mid (hist ! n)) hist = drop (Suc n) hist"
proof -
  have nth: "mid (hist ! j) < mid (hist ! i)" if "i < j" "j < length hist" for i j
    using assms(1) that by (simp add: sorted_wrt_iff_nth_less)
  have "\<forall>x \<in> set (take (Suc n) hist). \<not> mid x < mid (hist ! n)"
  proof
    fix x assume "x \<in> set (take (Suc n) hist)"
    then obtain i where i: "i < Suc n" "i < length hist" "x = hist ! i"
      by (auto simp: in_set_conv_nth)
    show "\<not> mid x < mid (hist ! n)"
    proof (cases "i = n")
      case True
      with i show ?thesis by simp
    next
      case False
      with i have "i < n" by simp
      from nth[OF this assms(2)] i show ?thesis by simp
    qed
  qed
  then have a: "filter (\<lambda>m. mid m < mid (hist ! n)) (take (Suc n) hist) = []"
    by (simp add: filter_empty_conv)
  have "\<forall>x \<in> set (drop (Suc n) hist). mid x < mid (hist ! n)"
  proof
    fix x assume "x \<in> set (drop (Suc n) hist)"
    then obtain i where i: "i < length hist - Suc n" "x = hist ! (Suc n + i)"
      by (auto simp: in_set_conv_nth)
    then have "n < Suc n + i" "Suc n + i < length hist" by simp_all
    from nth[OF this] i show "mid x < mid (hist ! n)" by simp
  qed
  then have b: "filter (\<lambda>m. mid m < mid (hist ! n)) (drop (Suc n) hist) = drop (Suc n) hist"
    by (simp add: filter_id_conv)
  have "filter (\<lambda>m. mid m < mid (hist ! n)) hist
      = filter (\<lambda>m. mid m < mid (hist ! n)) (take (Suc n) hist @ drop (Suc n) hist)"
    by simp
  also have "\<dots> = drop (Suc n) hist"
    by (simp only: filter_append a b) simp
  finally show ?thesis .
qed

lemma purge_250_run:
  assumes acc: "\<forall>r. accepts T r"
    and f0: "fetch T ch None None = Inr (take 100 hist)"
    and fb: "\<forall>b. fetch T ch (Some b) None = Inr (take 100 (filter (\<lambda>m. mid m < b) hist))"
    and len: "length hist = 250"
    and srt: "sorted_wrt (>) (map mid hist)"
    and fresh: "\<forall>m \<in> set hist. now - 1209600000 \<le> timestamp m"
    and young: "\<forall>m \<in> set hist. now - 1209600000 \<le> snowflake_time (mid m)"
  shows "purgeChannel T now ch (purge_all reason) =
     Some (Inr 250,
        [Request (GetMessages ch 100 None None),
         Request (GetMessages ch 100 (Some (mid (hist ! 99))) None),
         Request (GetMessages ch 100 (Some (mid (hist ! 199))) None),
         Request (BulkDelete ch (map mid (take 100 hist)) reason),
         Request (BulkDelete ch (map mid (take 100 (drop 100 hist))) reason),
         Request (BulkDelete ch (map mid (drop 200 hist)) reason)])"
proof -
  let ?p1 = "take 100 hist" and ?p2 = "take 100 (drop 100 hist)" and ?p3 = "drop 200 hist"
  let ?g1 = "Request (GetMessages ch 100 None None)"
  let ?g2 = "Request (GetMessages ch 100 (Some (mid (hist ! 99))) None)"
  let ?g3 = "Request (GetMessages ch 100 (Some (mid (hist ! 199))) None)"
  let ?st0 = "\<lparr>remaining = - 1, toDelete = [], deleted = 0, done_flag = False, trace = []\<rparr>"
  let ?st1 = "\<lparr>remaining = - 1, toDelete = map mid ?p1, deleted = 0, done_flag = False, trace = [?g1]\<rparr>"
  let ?st2 = "\<lparr>remaining = - 1, toDelete = map mid ?p1 @ map mid ?p2, deleted = 0, done_flag = False,
                trace = [?g1, ?g2]\<rparr>"
  let ?st3 = "\<lparr>remaining = - 1, toDelete = map mid hist, deleted = 0, done_flag = True,
                trace = [?g1, ?g2, ?g3]\<rparr>"
  have fr1: "\<forall>m \<in> set ?p1. now - 1209600000 \<le> timestamp m"
    and fr2: "\<forall>m \<in> set ?p2. now - 1209600000 \<le> timestamp m"
    and fr3: "\<forall>m \<in> set ?p3. now - 1209600000 \<le> timestamp m"
    using fresh by (auto dest: in_set_takeD in_set_dropD)
  have l1: "last ?p1 = hist ! 99"
  proof -
    have "?p1 \<noteq> []" using len by auto
    from last_conv_nth[OF this] len show ?thesis by simp
  qed
  have l2: "last ?p2 = hist ! 199"
  proof -
    have "?p2 \<noteq> []" using len by auto
    from last_conv_nth[OF this] len show ?thesis by simp
  qed
  have f1: "fetch T ch (Some (mid (hist ! 99))) None = Inr ?p2"
    using fb filter_older[OF srt, of 99] len by simp
  have f2: "fetch T ch (Some (mid (hist ! 199))) None = Inr ?p3"
    using fb filter_older[OF srt, of 199] len by simp
  have all: "map mid ?p1 @ map mid ?p2 @ map mid ?p3 = map mid hist"
  proof -
    have "?p2 @ drop 100 (drop 100 hist) = drop 100 hist" by (rule append_take_drop_id)
    moreover have "drop 100 (drop 100 hist) = ?p3" by simp
    ultimately have "?p2 @ ?p3 = drop 100 hist" by (simp only:)
    moreover have "?p1 @ drop 100 hist = hist" by (rule append_take_drop_id)
    ultimately have "?p1 @ ?p2 @ ?p3 = hist" by (simp only:)
    then have "map mid (?p1 @ ?p2 @ ?p3) = map mid hist" by (simp only:)
    then show ?thesis by (simp only: map_append)
  qed
  have d3: "del T now ch None (Some (mid (hist ! 199))) None ?st2 = Some (Inr (), ?st3)"
    using del_last_page[OF f2, of now ?st2] fr3 len all by simp
  have d2: "del T now ch None (Some (mid (hist ! 99))) None ?st1 = Some (Inr (), ?st3)"
    by (rule del_full_page[OF f1 _ fr2]) (use len l2 d3 in simp_all)
  have d1: "del T now ch None None None ?st0 = Some (Inr (), ?st3)"
    by (rule del_full_page[OF f0 _ fr1]) (use len l1 d2 in simp_all)
  have ok: "\<forall>m \<in> set (map mid hist). oldestAllowedSnowflake now \<le> int m"
  proof
    fix m assume "m \<in> set (map mid hist)"
    with young have "\<not> snowflake_time m < now - 1209600000" by auto
    then show "oldestAllowedSnowflake now \<le> int m" by (simp add: stale_iff)
  qed
  have ok1: "\<forall>m \<in> set (drop 100 (map mid hist)). oldestAllowedSnowflake now \<le> int m"
    using ok by (meson in_set_dropD)
  have ok2: "\<forall>m \<in> set (drop 100 (drop 100 (map mid hist))). oldestAllowedSnowflake now \<le> int m"
    using ok1 by (meson in_set_dropD)
  have m3: "deleteMessages T now ch (drop 100 (drop 100 (map mid hist))) reason
      = (None, [BulkDelete ch (map mid ?p3) reason])"
    using deleteMessages_last[OF _ _ ok2, of T ch reason] acc len
    by (simp add: drop_map)
  have m2: "deleteMessages T now ch (drop 100 (map mid hist)) reason
      = (None, [BulkDelete ch (map mid ?p2) reason, BulkDelete ch (map mid ?p3) reason])"
    using deleteMessages_chunk[OF _ ok1, of T ch reason] acc len m3
    by (simp add: drop_map take_map)
  have m1: "deleteMessages T now ch (map mid hist) reason
      = (None, [BulkDelete ch (map mid ?p1) reason, BulkDelete ch (map mid ?p2) reason,
                BulkDelete ch (map mid ?p3) reason])"
    using deleteMessages_chunk[OF _ ok, of T ch reason] acc len m2
    by (simp add: take_map)
  have c: "checkToDelete T now ch reason ?st3 =
      Some (Inr 250, ?st3\<lparr>deleted := 250, trace :=
        [Request (GetMessages ch 100 None None),
         Request (GetMessages ch 100 (Some (mid (hist ! 99))) None),
         Request (GetMessages ch 100 (Some (mid (hist ! 199))) None),
         Request (BulkDelete ch (map mid (take 100 hist)) reason),
         Request (BulkDelete ch (map mid (take 100 (drop 100 hist))) reason),
         Request (BulkDelete ch (map mid (drop 200 hist)) reason)]\<rparr>)"
    using checkToDelete_done[of ?st3 T now ch reason] m1 len
    by simp
  show ?thesis
    using d1 c by (simp add: purgeChannel_def purge_all_def)
qed

lemma sample_sorted: "sorted_wrt (>) (map mid sample_channel)"
proof -
  have "sorted_wrt (\<lambda>x y. mid (sample_message x) < mid (sample_message y)) [0..<250]"
    by (rule sorted_wrt_mono_rel[OF _ sorted_wrt_upt]) (simp add: sample_message_def)
  then show ?thesis
    by (simp add: sample_channel_def sorted_wrt_rev sorted_wrt_map flip: rev_map)
qed

lemma sample_fresh:
  "\<forall>m \<in> set sample_channel. sample_now - 1209600000 \<le> timestamp m"
  "\<forall>m \<in> set sample_channel. sample_now - 1209600000 \<le> snowflake_time (mid m)"
proof -
  show "\<forall>m \<in> set sample_channel. sample_now - 1209600000 \<le> timestamp m"
    by (auto simp: sample_channel_def sample_message_def sample_now_def)
  have "\<not> snowflake_time (mid m) < sample_now - 1209600000" if "m \<in> set sample_channel" for m
    using that unfolding stale_iff
    by (auto simp: sample_channel_def sample_message_def sample_now_def oldestAllowedSnowflake_def)
  then show "\<forall>m \<in> set sample_channel. sample_now - 1209600000 \<le> snowflake_time (mid m)"
    by (simp add: not_less)
qed

lemma sample_serves:
  "\<forall>r. accepts sample_transport r"
  "fetch sample_transport ch None None = Inr (take 100 sample_channel)"
  "\<forall>b. fetch sample_transport ch (Some b) None
        = Inr (take 100 (filter (\<lambda>m. mid m < b) sample_channel))"
  "length sample_channel = 250"
  by (simp_all add: sample_transport_def sample_channel_def)

lemma sample_cursors:
  "mid (sample_channel ! 99) = 1173747453132800150"
  "mid (sample_channel ! 199) = 1173747453132800050"
  by (simp_all add: sample_channel_def rev_nth sample_message_def)

text \<open>
  C5. On a channel of 250 messages, all younger than 14 days by their timestamp and by
  their identifier, served newest first in pages of 100 by a transport that fulfils
  every request, \<open>purgeChannel\<close> with \<open>limit = -1\<close> and no filter fetches three pages,
  whose scans append 100, 100 and 50 identifiers to the buffer, submits three bulk-delete
  requests of 100, 100 and 50 identifiers and no other delete request, and resolves with
  250.
\<close>

theorem purge_250_messages:
  assumes "\<forall>r. accepts T r"
    and "fetch T ch None None = Inr (take 100 hist)"
    and "\<forall>b. fetch T ch (Some b) None = Inr (take 100 (filter (\<lambda>m. mid m < b) hist))"
    and "length hist = 250"
    and "sorted_wrt (>) (map mid hist)"
    and "\<forall>m \<in> set hist. now - 1209600000 \<le> timestamp m"
    and "\<forall>m \<in> set hist. now - 1209600000 \<le> snowflake_time (mid m)"
  shows "purgeChannel T now ch (purge_all reason) =
     Some (Inr 250,
        [Request (GetMessages ch 100 None None),
         Request (GetMessages ch 100 (Some (mid (hist ! 99))) None),
         Request (GetMessages ch 100 (Some (mid (hist ! 199))) None),
         Request (BulkDelete ch (map mid (take 100 hist)) reason),
         Request (BulkDelete ch (map mid (take 100 (drop 100 hist))) reason),
         Request (BulkDelete ch (map mid (drop 200 hist)) reason)])
   \<and> scan_page None now (take 100 hist) (- 1) [] = (- 1, map mid (take 100 hist), False)
   \<and> scan_page None now (take 100 (drop 100 hist)) (- 1) (map mid (take 100 hist))
       = (- 1, map mid (take 100 hist) @ map mid (take 100 (drop 100 hist)), False)
   \<and> scan_page None now (drop 200 hist) (- 1)
         (map mid (take 100 hist) @ map mid (take 100 (drop 100 hist)))
       = (- 1, map mid (take 100 hist) @ map mid (take 100 (drop 100 hist)) @ map mid (drop 200 hist), False)
   \<and> length (map mid (take 100 hist)) = 100
   \<and> length (map mid (take 100 (drop 100 hist))) = 100
   \<and> length (map mid (drop 200 hist)) = 50"
proof -
  have fr1: "\<forall>m \<in> set (take 100 hist). now - 1209600000 \<le> timestamp m"
    using assms(6) by (meson in_set_takeD)
  have fr2: "\<forall>m \<in> set (take 100 (drop 100 hist)). now - 1209600000 \<le> timestamp m"
    using assms(6) by (meson in_set_takeD in_set_dropD)
  have fr3: "\<forall>m \<in> set (drop 200 hist). now - 1209600000 \<le> timestamp m"
    using assms(6) by (meson in_set_dropD)
  note run = purge_250_run[OF assms, of reason]
  note s1 = scan_page_all[OF fr1, of "[]"]
  note s2 = scan_page_all[OF fr2, of "map mid (take 100 hist)"]
  note s3 = scan_page_all[OF fr3, of "map mid (take 100 hist) @ map mid (take 100 (drop 100 hist))"]
  have "length (map mid (take 100 hist)) = 100" "length (map mid (take 100 (drop 100 hist))) = 100"
    "length (map mid (drop 200 hist)) = 50"
    using assms(4) by simp_all
  with run s1 s2 s3 show ?thesis by simp
qed

theorem purge_250_messages_witness:
  "purgeChannel sample_transport sample_now ''c'' (purge_all None) =
     Some (Inr 250,
        [Request (GetMessages ''c'' 100 None None),
         Request (GetMessages ''c'' 100 (Some 1173747453132800150) None),
         Request (GetMessages ''c'' 100 (Some 1173747453132800050) None),
         Request (BulkDelete ''c'' (map mid (take 100 sample_channel)) None),
         Request (BulkDelete ''c'' (map mid (take 100 (drop 100 sample_channel))) None),
         Request (BulkDelete ''c'' (map mid (drop 200 sample_channel)) None)])
   \<and> length (map mid (take 100 sample_channel)) = 100
   \<and> length (map mid (take 100 (drop 100 sample_channel))) = 100
   \<and> length (map mid (drop 200 sample_channel)) = 50"
  using purge_250_messages[OF sample_serves(1) sample_serves(2) sample_serves(3) sample_serves(4)
      sample_sorted sample_fresh, of "''c''" None]
  by (simp only: sample_cursors)

text \<open>
  C4 fails on the code. \<open>purgeChannel\<close> awaits the whole scan (\<open>await del(...)\<close>)
  before it calls \<open>checkToDelete\<close>, and every scan that returns has set \<open>done\<close>. So in
  every run that settles, whatever the transport, the clock and the options, all page
  requests come before all delete requests, and the pipeline never waits: the events
  are page requests followed by delete requests, with no \<open>sleep\<close> among them.
\<close>

theorem purge_drains_after_scan:
  "purgeChannel T now ch opts = Some (r, tr) \<Longrightarrow>
   \<exists>gets dels. tr = gets @ dels \<and> list_all is_fetch gets \<and> list_all is_delete dels"
proof -
  assume p: "purgeChannel T now ch opts = Some (r, tr)"
  show ?thesis
  proof (cases "opt_limit opts")
    case None
    with p have "tr = []" by (simp add: purgeChannel_def)
    then show ?thesis by simp
  next
    case (Some lim)
    show ?thesis
    proof (cases "lim \<noteq> - 1 \<and> lim \<le> 0")
      case True
      with p Some have "tr = []" by (simp add: purgeChannel_def)
      then show ?thesis by simp
    next
      case False
      let ?st0 = "\<lparr>remaining = lim, toDelete = [], deleted = 0, done_flag = False, trace = []\<rparr>"
      from p Some False obtain res st where
        d: "del T now ch (opt_filter opts) (opt_before opts) (opt_after opts) ?st0 = Some (res, st)"
        by (auto simp: purgeChannel_def split: option.splits)
      from del_scan_only[OF d] obtain gets where
        g: "trace st = gets" "list_all is_fetch gets" and dn: "\<forall>u. res = Inr u \<longrightarrow> done_flag st"
        by auto
      show ?thesis
      proof (cases res)
        case (Inl e)
        with p Some False d g have "tr = gets @ []" by (simp add: purgeChannel_def)
        with g show ?thesis by (intro exI[of _ gets] exI[of _ "[]"]) simp
      next
        case (Inr u)
        with dn have "done_flag st" by simp
        from checkToDelete_done[OF this, of T now ch "opt_reason opts"] p Some False d Inr g
        have "tr = gets @ map Request (snd (deleteMessages T now ch (toDelete st) (opt_reason opts)))"
          by (simp add: purgeChannel_def)
        with g deleteMessages_only_deletes[of T now ch "toDelete st" "opt_reason opts"]
        show ?thesis by blast
      qed
    qed
  qed
qed

theorem purge_drains_after_scan_witness:
  "\<exists>tr gets dels. purgeChannel sample_transport sample_now ''c'' (purge_all None) = Some (Inr 250, tr)
     \<and> tr = gets @ dels \<and> list_all is_fetch gets \<and> list_all is_delete dels"
proof -
  note run = purge_250_run[OF sample_serves(1) sample_serves(2) sample_serves(3) sample_serves(4)
      sample_sorted sample_fresh, of "''c''" None]
  from purge_drains_after_scan[OF run] run show ?thesis by blast
qed

end
